theory Spec2Isabelle
  imports Main "HOL-Library.Word"
begin

section \<open>Python values used by the image detection service\<close>

text \<open>
  Strings are lists of characters, which covers the code points below 256. Python's
  \<open>str.strip()\<close> removes the characters for which \<open>str.isspace()\<close> holds; below code
  point 256 these are 9 to 13, 28 to 32, 133 and 160.
\<close>

definition isspace :: "char \<Rightarrow> bool" where
  "isspace c =
     (let n = (of_char c :: nat)
      in (9 \<le> n \<and> n \<le> 13) \<or> (28 \<le> n \<and> n \<le> 32) \<or> n = 133 \<or> n = 160)"

definition strip :: "string \<Rightarrow> string" where
  "strip s = rev (dropWhile isspace (rev (dropWhile isspace s)))"

text \<open>\<open>sub in s\<close> on two strings: \<open>sub\<close> occurs in \<open>s\<close> as a contiguous substring.\<close>

fun startswith :: "string \<Rightarrow> string \<Rightarrow> bool" where
  "startswith s [] = True"
| "startswith [] (c # sub) = False"
| "startswith (d # s) (c # sub) = (d = c \<and> startswith s sub)"

fun contains :: "string \<Rightarrow> string \<Rightarrow> bool" where
  "contains sub [] = (sub = [])"
| "contains sub (c # s) = (startswith (c # s) sub \<or> contains sub s)"

text \<open>\<open>str(n)\<close> for an integer: its decimal digits, with a minus sign when negative.\<close>

fun digits :: "nat \<Rightarrow> string" where
  "digits n =
     (if n < 10 then [''0123456789'' ! n]
      else digits (n div 10) @ [''0123456789'' ! (n mod 10)])"

definition str_int :: "int \<Rightarrow> string" where
  "str_int i = (if i < 0 then ''-'' @ digits (nat (- i)) else digits (nat i))"

text \<open>
  A Python float is only ever forwarded or printed by this service, never computed
  with. It is represented by its \<open>repr\<close>, which determines the float.
\<close>

datatype pyfloat = PyFloat string

fun str_float :: "pyfloat \<Rightarrow> string" where
  "str_float (PyFloat r) = r"

text \<open>
  Exceptions derived from \<open>Exception\<close>, each with the text \<open>str(e)\<close> gives.
  For a \<open>KeyError\<close> that text is the \<open>repr\<close> of the missing key. \<open>LibraryError\<close>
  stands for any other subclass raised inside httpx or the JSON decoder.
\<close>

datatype exn =
    Exception string
  | TypeError string
  | KeyError string
  | IndexError string
  | AttributeError string
  | ValueError string
  | LibraryError string

fun str_exn :: "exn \<Rightarrow> string" where
  "str_exn (Exception m) = m"
| "str_exn (TypeError m) = m"
| "str_exn (KeyError m) = m"
| "str_exn (IndexError m) = m"
| "str_exn (AttributeError m) = m"
| "str_exn (ValueError m) = m"
| "str_exn (LibraryError m) = m"

text \<open>
  The value \<open>response.json()\<close> returns: \<open>None\<close>, a bool, an int, a float, a str, a
  list or a dict with string keys (an association list, looked up with \<open>map_of\<close>; the
  keys of a decoded dict are distinct).
  The same type serves for the dicts \<open>classify_batch\<close> returns.
\<close>

datatype json =
    JNull
  | JBool bool
  | JInt int
  | JFloat pyfloat
  | JStr string
  | JArr "json list"
  | JObj "(string \<times> json) list"

fun type_name :: "json \<Rightarrow> string" where
  "type_name JNull = ''NoneType''"
| "type_name (JBool b) = ''bool''"
| "type_name (JInt i) = ''int''"
| "type_name (JFloat f) = ''float''"
| "type_name (JStr s) = ''str''"
| "type_name (JArr xs) = ''list''"
| "type_name (JObj kvs) = ''dict''"

text \<open>Truth value of an object, as \<open>not x\<close> tests it.\<close>

fun truthy :: "json \<Rightarrow> bool" where
  "truthy JNull = False"
| "truthy (JBool b) = b"
| "truthy (JInt i) = (i \<noteq> 0)"
| "truthy (JFloat f) = (str_float f \<noteq> ''0.0'' \<and> str_float f \<noteq> ''-0.0'')"
| "truthy (JStr s) = (s \<noteq> [])"
| "truthy (JArr xs) = (xs \<noteq> [])"
| "truthy (JObj kvs) = (kvs \<noteq> [])"

text \<open>\<open>key in obj\<close> for a string key: key membership in a dict, element equality in a
  list, substring test in a str, and a \<open>TypeError\<close> for the other types.\<close>

fun py_in :: "string \<Rightarrow> json \<Rightarrow> exn + bool" where
  "py_in k (JObj kvs) = Inr (k \<in> set (map fst kvs))"
| "py_in k (JArr xs) = Inr (JStr k \<in> set xs)"
| "py_in k (JStr s) = Inr (contains k s)"
| "py_in k v = Inl (TypeError (''argument of type '' @ [CHR 0x27] @ type_name v @ [CHR 0x27] @ '' is not iterable''))"

definition not_subscriptable :: "json \<Rightarrow> exn" where
  "not_subscriptable v =
     TypeError ([CHR 0x27] @ type_name v @ [CHR 0x27] @ '' object is not subscriptable'')"

text \<open>\<open>obj[key]\<close> for a string key.\<close>

fun getitem :: "json \<Rightarrow> string \<Rightarrow> exn + json" where
  "getitem (JObj kvs) k =
     (case map_of kvs k of
        Some v \<Rightarrow> Inr v
      | None \<Rightarrow> Inl (KeyError ([CHR 0x27] @ k @ [CHR 0x27])))"
| "getitem (JArr xs) k = Inl (TypeError ''list indices must be integers or slices, not str'')"
| "getitem (JStr s) k = Inl (TypeError (''string indices must be integers, not '' @ [CHR 0x27] @ ''str'' @ [CHR 0x27]))"
| "getitem v k = Inl (not_subscriptable v)"

text \<open>\<open>obj[0]\<close>. A dict decoded from JSON has string keys only, so \<open>0\<close> is never a key.\<close>

fun getitem0 :: "json \<Rightarrow> exn + json" where
  "getitem0 (JArr xs) =
     (case xs of [] \<Rightarrow> Inl (IndexError ''list index out of range'') | x # _ \<Rightarrow> Inr x)"
| "getitem0 (JStr s) =
     (case s of [] \<Rightarrow> Inl (IndexError ''string index out of range'') | c # _ \<Rightarrow> Inr (JStr [c]))"
| "getitem0 (JObj kvs) = Inl (KeyError ''0'')"
| "getitem0 v = Inl (not_subscriptable v)"

text \<open>\<open>obj.strip()\<close>: defined on str only.\<close>

fun py_strip :: "json \<Rightarrow> exn + string" where
  "py_strip (JStr s) = Inr (strip s)"
| "py_strip v =
     Inl (AttributeError ([CHR 0x27] @ type_name v @ [CHR 0x27] @ '' object has no attribute ''
            @ [CHR 0x27] @ ''strip'' @ [CHR 0x27]))"

text \<open>Sequencing of steps that may raise.\<close>

fun bind :: "exn + 'a \<Rightarrow> ('a \<Rightarrow> exn + 'b) \<Rightarrow> exn + 'b" where
  "bind (Inl e) f = Inl e"
| "bind (Inr x) f = f x"

section \<open>Configuration, requests and responses\<close>

text \<open>The fields of \<open>settings\<close> the service reads (\<open>app/config/config.py\<close>).\<close>

record settings =
  OPENROUTER_API_KEY :: string
  OPENROUTER_URL :: string
  DEFAULT_MODEL :: string
  APP_NAME :: string
  REQUEST_TIMEOUT :: pyfloat

text \<open>\<open>ImageDetectionService.__init__\<close>.\<close>

record service =
  api_url :: string
  api_key :: string
  timeout :: pyfloat

definition init_service :: "settings \<Rightarrow> service" where
  "init_service cfg =
     \<lparr>api_url = OPENROUTER_URL cfg, api_key = OPENROUTER_API_KEY cfg, timeout = REQUEST_TIMEOUT cfg\<rparr>"

text \<open>
  RFC 4648 base64 with padding, which is what \<open>base64.b64encode\<close> of the standard
  library computes; its result is ASCII, so \<open>.decode("utf-8")\<close> changes nothing.
\<close>

definition b64char :: "nat \<Rightarrow> char" where
  "b64char n =
     ''ABCDEFGHIJKLMNOPQRSTUVWXYZabcdefghijklmnopqrstuvwxyz0123456789+/'' ! (n mod 64)"

fun b64encode :: "8 word list \<Rightarrow> string" where
  "b64encode [] = []"
| "b64encode [a] =
     (let n = unat a * 65536
      in [b64char (n div 262144), b64char (n div 4096), CHR ''='', CHR ''=''])"
| "b64encode [a, b] =
     (let n = unat a * 65536 + unat b * 256
      in [b64char (n div 262144), b64char (n div 4096), b64char (n div 64), CHR ''=''])"
| "b64encode (a # b # c # rest) =
     (let n = unat a * 65536 + unat b * 256 + unat c
      in [b64char (n div 262144), b64char (n div 4096), b64char (n div 64), b64char n]
         @ b64encode rest)"

text \<open>The JSON body of the request, with the float kept as a float.\<close>

datatype content_part = Text_part string | Image_url_part string

record message =
  role :: string
  content :: "content_part list"

record payload =
  model :: string
  messages :: "message list"
  max_tokens :: int
  temperature :: pyfloat
  stream :: bool

definition get_headers :: "service \<Rightarrow> settings \<Rightarrow> (string \<times> string) list" where
  "get_headers svc cfg =
     [(''Authorization'', ''Bearer '' @ api_key svc),
      (''Content-Type'', ''application/json''),
      (''HTTP-Referer'', APP_NAME cfg),
      (''X-Title'', APP_NAME cfg)]"

definition prepare_payload :: "settings \<Rightarrow> string \<Rightarrow> int \<Rightarrow> pyfloat \<Rightarrow> payload" where
  "prepare_payload cfg image_base64 mt temp =
     \<lparr>model = DEFAULT_MODEL cfg,
      messages =
        [\<lparr>role = ''user'',
          content =
            [Text_part
               (''What is this image? Give me a brief, clear identification ''
                @ ''of the main object or subject in this image. ''
                @ ''Just tell me what it is in 1-3 words if possible. ''
                @ ''Be specific and accurate.''),
             Image_url_part (''data:image/jpeg;base64,'' @ image_base64)]\<rparr>],
      max_tokens = mt,
      temperature = temp,
      stream = False\<rparr>"

text \<open>What \<open>client.post(self.api_url, json=payload, headers=headers)\<close> is given.\<close>

record request =
  url :: string
  body :: payload
  headers :: "(string \<times> string) list"

text \<open>
  What the post gives back: the fields of the response the service reads.
  \<open>decoded\<close> is the outcome of \<open>response.json()\<close>, which raises when the body is not
  JSON.
\<close>

record response =
  status_code :: int
  resp_text :: string
  decoded :: "exn + json"

text \<open>
  The outcome of one \<open>async with httpx.AsyncClient(...)\<close> block up to the end of the
  post: \<open>httpx.TimeoutException\<close>, another \<open>httpx.RequestError\<close> with its text, any
  other exception derived from \<open>Exception\<close>, or a response.
\<close>

datatype http_outcome =
    TimeoutException
  | RequestError string
  | OtherError exn
  | Response response

text \<open>The network: what the post of a given attempt answers to a given request.\<close>

type_synonym network = "nat \<Rightarrow> request \<Rightarrow> http_outcome"

section \<open>classify_image\<close>

text \<open>Lines 150 to 162: from the response to the classification, or the exception raised.\<close>

definition extract_classification :: "response \<Rightarrow> exn + string" where
  "extract_classification r =
     bind (decoded r) (\<lambda>result.
     bind (py_in ''choices'' result) (\<lambda>present.
       if \<not> present then Inl (Exception ''Invalid response format from API'')
       else
     bind (getitem result ''choices'') (\<lambda>choices.
       if \<not> truthy choices then Inl (Exception ''Invalid response format from API'')
       else
     bind (getitem0 choices) (\<lambda>choice.
     bind (getitem choice ''message'') (\<lambda>msg.
     bind (getitem msg ''content'') (\<lambda>cont.
     bind (py_strip cont) (\<lambda>classification.
       if classification = [] then Inl (Exception ''Empty classification result'')
       else Inr classification)))))))"

text \<open>
  The state of the retry loop: the variable \<open>last_exception\<close>, and the record of what
  the call has done so far: the request of every call to \<open>client.post\<close>, whatever its
  outcome, and the durations passed to \<open>asyncio.sleep\<close>. Log lines are left out; they
  change nothing else.
\<close>

record loop_state =
  last_exception :: "exn option"
  posted :: "request list"
  slept :: "int list"

definition init_state :: loop_state where
  "init_state = \<lparr>last_exception = None, posted = [], slept = []\<rparr>"

text \<open>How one pass through the loop body ends.\<close>

datatype flow = Returned string | Broke | Next_attempt

text \<open>Lines 179 to 183, reached when the \<open>try\<close> statement is left normally.\<close>

definition backoff :: "int \<Rightarrow> int \<Rightarrow> loop_state \<Rightarrow> loop_state" where
  "backoff retry_count attempt st =
     (if attempt < retry_count - 1 then st\<lparr>slept := slept st @ [2 ^ nat attempt]\<rparr> else st)"

text \<open>Lines 172 to 177, the handler \<open>except Exception as e\<close>.\<close>

definition is_client_error_text :: "string \<Rightarrow> bool" where
  "is_client_error_text s = (contains ''400'' s \<or> contains ''401'' s \<or> contains ''403'' s)"

definition except_Exception :: "int \<Rightarrow> int \<Rightarrow> exn \<Rightarrow> loop_state \<Rightarrow> flow \<times> loop_state" where
  "except_Exception retry_count attempt e st =
     (let st' = st\<lparr>last_exception := Some e\<rparr>
      in if is_client_error_text (str_exn e) then (Broke, st')
         else (Next_attempt, backoff retry_count attempt st'))"

text \<open>
  Lines 126 to 183: one pass through the body of \<open>for attempt in range(retry_count)\<close>.
  The exception raised at line 143 for a status from 400 to 499 is raised inside the
  \<open>try\<close> statement, so the handler of line 172 receives it. The branch for the other
  statuses ends with \<open>continue\<close> at line 147 and does not reach lines 179 to 183. The
  handlers of lines 164 and 168 fall through to them.
\<close>

definition attempt_once ::
  "service \<Rightarrow> network \<Rightarrow> request \<Rightarrow> int \<Rightarrow> int \<Rightarrow> loop_state \<Rightarrow> flow \<times> loop_state" where
  "attempt_once svc net req retry_count attempt st =
     (let st1 = st\<lparr>posted := posted st @ [req]\<rparr>
      in case net (nat attempt) req of
           Response r \<Rightarrow>
             if status_code r \<noteq> 200 then
               (let error_msg = ''API error '' @ str_int (status_code r) @ '': '' @ resp_text r
                in if 400 \<le> status_code r \<and> status_code r < 500
                   then except_Exception retry_count attempt (Exception error_msg) st1
                   else (Next_attempt, st1\<lparr>last_exception := Some (Exception error_msg)\<rparr>))
             else
               (case extract_classification r of
                  Inl e \<Rightarrow> except_Exception retry_count attempt e st1
                | Inr classification \<Rightarrow> (Returned classification, st1))
         | TimeoutException \<Rightarrow>
             (Next_attempt,
              backoff retry_count attempt
                (st1\<lparr>last_exception :=
                   Some (Exception (''Request timeout after '' @ str_float (timeout svc) @ ''s''))\<rparr>))
         | RequestError m \<Rightarrow>
             (Next_attempt,
              backoff retry_count attempt
                (st1\<lparr>last_exception := Some (Exception (''Request error: '' @ m))\<rparr>))
         | OtherError e \<Rightarrow> except_Exception retry_count attempt e st1)"

text \<open>Line 185: \<open>raise last_exception or Exception("Classification failed after all retries")\<close>.\<close>

definition raise_last :: "loop_state \<Rightarrow> exn" where
  "raise_last st =
     (case last_exception st of
        Some e \<Rightarrow> e
      | None \<Rightarrow> Exception ''Classification failed after all retries'')"

text \<open>The loop over the attempts still to make.\<close>

fun retry_loop ::
  "service \<Rightarrow> network \<Rightarrow> request \<Rightarrow> int \<Rightarrow> int list \<Rightarrow> loop_state
     \<Rightarrow> (exn + string) \<times> loop_state" where
  "retry_loop svc net req retry_count [] st = (Inl (raise_last st), st)"
| "retry_loop svc net req retry_count (attempt # rest) st =
     (case attempt_once svc net req retry_count attempt st of
        (Returned classification, st') \<Rightarrow> (Inr classification, st')
      | (Broke, st') \<Rightarrow> (Inl (raise_last st'), st')
      | (Next_attempt, st') \<Rightarrow> retry_loop svc net req retry_count rest st')"

text \<open>Lines 111 to 120: the request every attempt posts.\<close>

definition build_request :: "service \<Rightarrow> settings \<Rightarrow> 8 word list \<Rightarrow> int \<Rightarrow> pyfloat \<Rightarrow> request" where
  "build_request svc cfg image_data mt temp =
     (let image_base64 = b64encode image_data;
          hdrs = get_headers svc cfg;
          pl = prepare_payload cfg image_base64 mt temp
      in \<lparr>url = api_url svc, body = pl, headers = hdrs\<rparr>)"

text \<open>
  \<open>classify_image\<close>: the exception raised or the classification returned, with the
  final state of the call. \<open>range(retry_count)\<close> is the list \<open>[0..retry_count - 1]\<close>,
  empty when \<open>retry_count \<le> 0\<close>.
\<close>

definition classify_image ::
  "service \<Rightarrow> settings \<Rightarrow> network \<Rightarrow> 8 word list \<Rightarrow> int \<Rightarrow> pyfloat \<Rightarrow> int
     \<Rightarrow> (exn + string) \<times> loop_state" where
  "classify_image svc cfg net image_data mt temp retry_count =
     (if api_key svc = [] then (Inl (Exception ''OpenRouter API key not configured''), init_state)
      else
        retry_loop svc net (build_request svc cfg image_data mt temp) retry_count
          [0..retry_count - 1] init_state)"

section \<open>classify_batch\<close>

text \<open>
  Lines 207 to 219, the body of \<open>classify_single\<close> inside \<open>async with semaphore\<close>:
  \<open>classify_image\<close> with its default arguments, and the dict made of its outcome.
\<close>

definition classify_single :: "service \<Rightarrow> settings \<Rightarrow> network \<Rightarrow> 8 word list \<Rightarrow> nat \<Rightarrow> json" where
  "classify_single svc cfg net image_data index =
     (case fst (classify_image svc cfg net image_data 50 (PyFloat ''0.1'') 3) of
        Inr result \<Rightarrow>
          JObj [(''index'', JInt (int index)), (''success'', JBool True),
                (''classification'', JStr result)]
      | Inl e \<Rightarrow>
          JObj [(''index'', JInt (int index)), (''success'', JBool False),
                (''error'', JStr (str_exn e))])"

text \<open>
  The coroutines \<open>asyncio.gather\<close> runs. Each holds the arguments it was created
  with and is in one of three phases: suspended in \<open>async with semaphore\<close>, inside
  the block with its call to \<open>classify_image\<close> in flight, or finished with its dict.
\<close>

datatype phase = Waiting | Running | Done json

record task =
  task_image :: "8 word list"
  task_index :: nat
  phase :: phase

record batch_state =
  tasks :: "task list"
  sem_value :: int

text \<open>
  One step of the event loop on the task at position \<open>p\<close>. A waiting task enters the
  block when the value of the semaphore is positive, and decrements it. A running
  task leaves the block with the dict of \<open>classify_single\<close>, on either branch of the
  \<open>try\<close>, and the semaphore is incremented. A task that waits on a semaphore of
  value 0, or has finished, does nothing. \<open>nets i\<close> is the network as the task of
  index \<open>i\<close> meets it.
\<close>

definition step_task ::
  "service \<Rightarrow> settings \<Rightarrow> (nat \<Rightarrow> network) \<Rightarrow> batch_state \<Rightarrow> nat \<Rightarrow> batch_state" where
  "step_task svc cfg nets st p =
     (if p < length (tasks st) then
        (let t = tasks st ! p
         in case phase t of
              Waiting \<Rightarrow>
                if 0 < sem_value st
                then st\<lparr>tasks := (tasks st)[p := t\<lparr>phase := Running\<rparr>],
                        sem_value := sem_value st - 1\<rparr>
                else st
            | Running \<Rightarrow>
                st\<lparr>tasks := (tasks st)
                       [p := t\<lparr>phase := Done (classify_single svc cfg (nets (task_index t))
                                               (task_image t) (task_index t))\<rparr>],
                   sem_value := sem_value st + 1\<rparr>
            | Done r \<Rightarrow> st)
      else st)"

text \<open>A schedule is the list of positions the event loop steps, in order.\<close>

definition run_schedule ::
  "service \<Rightarrow> settings \<Rightarrow> (nat \<Rightarrow> network) \<Rightarrow> nat list \<Rightarrow> batch_state \<Rightarrow> batch_state" where
  "run_schedule svc cfg nets schedule st = foldl (step_task svc cfg nets) st schedule"

text \<open>Lines 222 to 225: one coroutine per image, tagged with its position.\<close>

definition make_tasks :: "8 word list list \<Rightarrow> task list" where
  "make_tasks images_data =
     map (\<lambda>(i, image_data). \<lparr>task_image = image_data, task_index = i, phase = Waiting\<rparr>)
       (enumerate 0 images_data)"

text \<open>
  \<open>asyncio.gather\<close> returns once every task has finished, with the results in the
  order of the tasks; until then there is no result.
\<close>

fun finished :: "task \<Rightarrow> json option" where
  "finished t = (case phase t of Done r \<Rightarrow> Some r | _ \<Rightarrow> None)"

definition gather :: "batch_state \<Rightarrow> json list option" where
  "gather st = those (map finished (tasks st))"

text \<open>
  \<open>classify_batch\<close> under a schedule. \<open>asyncio.Semaphore\<close> raises \<open>ValueError\<close> for
  a negative initial value. Otherwise the result is what \<open>gather\<close> has to give after
  the steps of the schedule: \<open>None\<close> while the call has not returned.
\<close>

definition start_batch :: "8 word list list \<Rightarrow> int \<Rightarrow> exn + batch_state" where
  "start_batch images_data max_concurrent =
     (if max_concurrent < 0 then Inl (ValueError ''Semaphore initial value must be >= 0'')
      else Inr \<lparr>tasks = make_tasks images_data, sem_value = max_concurrent\<rparr>)"

definition classify_batch ::
  "service \<Rightarrow> settings \<Rightarrow> (nat \<Rightarrow> network) \<Rightarrow> 8 word list list \<Rightarrow> int \<Rightarrow> nat list
     \<Rightarrow> exn + json list option" where
  "classify_batch svc cfg nets images_data max_concurrent schedule =
     (case start_batch images_data max_concurrent of
        Inl e \<Rightarrow> Inl e
      | Inr st \<Rightarrow> Inr (gather (run_schedule svc cfg nets schedule st)))"

section \<open>Notions the properties are stated with\<close>

text \<open>
  The failure an attempt ends with, read off the outcome of its post: the exception
  the handlers of lines 137 to 177 store in \<open>last_exception\<close>; \<open>None\<close> when the
  attempt succeeds.
\<close>

definition failure_of :: "service \<Rightarrow> http_outcome \<Rightarrow> exn option" where
  "failure_of svc out =
     (case out of
        TimeoutException \<Rightarrow>
          Some (Exception (''Request timeout after '' @ str_float (timeout svc) @ ''s''))
      | RequestError m \<Rightarrow> Some (Exception (''Request error: '' @ m))
      | OtherError e \<Rightarrow> Some e
      | Response r \<Rightarrow>
          if status_code r \<noteq> 200
          then Some (Exception (''API error '' @ str_int (status_code r) @ '': '' @ resp_text r))
          else (case extract_classification r of Inl e \<Rightarrow> Some e | Inr c \<Rightarrow> None))"

text \<open>
  The text of the first candidate of a well-formed body: a dict whose \<open>choices\<close> is a
  non-empty list, whose first element is a dict with a dict \<open>message\<close> that has a
  string \<open>content\<close>.
\<close>

fun first_candidate_text :: "json \<Rightarrow> string option" where
  "first_candidate_text (JObj kvs) =
     (case map_of kvs ''choices'' of
        Some (JArr (JObj choice # others)) \<Rightarrow>
          (case map_of choice ''message'' of
             Some (JObj msg) \<Rightarrow>
               (case map_of msg ''content'' of Some (JStr s) \<Rightarrow> Some s | _ \<Rightarrow> None)
           | _ \<Rightarrow> None)
      | _ \<Rightarrow> None)"
| "first_candidate_text v = None"

text \<open>The number of calls to \<open>classify_image\<close> in flight.\<close>

definition in_flight :: "batch_state \<Rightarrow> nat" where
  "in_flight st = length (filter (\<lambda>t. phase t = Running) (tasks st))"

text \<open>No task can take a step: the event loop has nothing left to run.\<close>

definition idle :: "service \<Rightarrow> settings \<Rightarrow> (nat \<Rightarrow> network) \<Rightarrow> batch_state \<Rightarrow> bool" where
  "idle svc cfg nets st = list_all (\<lambda>p. step_task svc cfg nets st p = st) [0..<length (tasks st)]"

text \<open>The result set a batch is expected to return: at each position the dict of that
  position's image.\<close>

definition expected_results ::
  "service \<Rightarrow> settings \<Rightarrow> (nat \<Rightarrow> network) \<Rightarrow> 8 word list list \<Rightarrow> json list" where
  "expected_results svc cfg nets images_data =
     map (\<lambda>(i, image_data). classify_single svc cfg (nets i) image_data i)
       (enumerate 0 images_data)"

text \<open>Two final states that differ at most in the requests posted, not in their number.\<close>

definition same_outcome :: "loop_state \<Rightarrow> loop_state \<Rightarrow> bool" where
  "same_outcome st st' \<longleftrightarrow>
     last_exception st = last_exception st' \<and> slept st = slept st'
     \<and> length (posted st) = length (posted st')"

text \<open>
  What every state of a batch over \<open>images_data\<close> with a semaphore of \<open>max_concurrent\<close>
  satisfies: the tasks keep their arguments, a finished task holds the dict of its own
  image, and each call in flight holds one unit of the semaphore.
\<close>

definition batch_invariant ::
  "service \<Rightarrow> settings \<Rightarrow> (nat \<Rightarrow> network) \<Rightarrow> 8 word list list \<Rightarrow> int \<Rightarrow> batch_state \<Rightarrow> bool" where
  "batch_invariant svc cfg nets images_data max_concurrent st \<longleftrightarrow>
     length (tasks st) = length images_data
     \<and> list_all (\<lambda>p. task_image (tasks st ! p) = images_data ! p
                      \<and> task_index (tasks st ! p) = p
                      \<and> (case phase (tasks st ! p) of
                            Done r \<Rightarrow> r = classify_single svc cfg (nets p) (images_data ! p) p
                          | _ \<Rightarrow> True))
          [0..<length images_data]
     \<and> 0 \<le> sem_value st
     \<and> int (in_flight st) + sem_value st = max_concurrent"

text \<open>The work a batch has left: two steps for a waiting task, one for a running one.\<close>

definition work_left :: "batch_state \<Rightarrow> nat" where
  "work_left st =
     sum_list (map (\<lambda>t. case phase t of Waiting \<Rightarrow> 2 | Running \<Rightarrow> 1 | Done r \<Rightarrow> 0) (tasks st))"

text \<open>
  A decoded body without a result: a dict in which \<open>choices\<close> is absent or empty
  (falsy), or a well-formed body whose text is empty once trimmed.
\<close>

definition lacks_result :: "json \<Rightarrow> bool" where
  "lacks_result j =
     ((case j of
         JObj kvs \<Rightarrow> (case map_of kvs ''choices'' of None \<Rightarrow> True | Some c \<Rightarrow> \<not> truthy c)
       | _ \<Rightarrow> False)
      \<or> (case first_candidate_text j of Some s \<Rightarrow> strip s = [] | None \<Rightarrow> False))"

section \<open>Example inputs\<close>

definition demo_settings :: settings where
  "demo_settings =
     \<lparr>OPENROUTER_API_KEY = ''sk-demo'',
      OPENROUTER_URL = ''https://openrouter.ai/api/v1/chat/completions'',
      DEFAULT_MODEL = ''qwen/qwen2.5-vl-32b-instruct:free'',
      APP_NAME = ''Image Classification API'',
      REQUEST_TIMEOUT = PyFloat ''30.0''\<rparr>"

definition demo_service :: service where
  "demo_service = init_service demo_settings"

text \<open>A response with the given status and text whose body is not JSON.\<close>

definition error_response :: "int \<Rightarrow> string \<Rightarrow> response" where
  "error_response code txt =
     \<lparr>status_code = code, resp_text = txt,
      decoded = Inl (LibraryError ''Expecting value: line 1 column 1 (char 0)'')\<rparr>"

text \<open>A response with status 200 and the given decoded body.\<close>

definition json_response :: "json \<Rightarrow> response" where
  "json_response j = \<lparr>status_code = 200, resp_text = [], decoded = Inr j\<rparr>"

text \<open>A well-formed body with one candidate of the given text.\<close>

definition completion :: "string \<Rightarrow> json" where
  "completion s =
     JObj [(''choices'', JArr [JObj [(''message'', JObj [(''content'', JStr s)])] ])]"

text \<open>
  The networks of a batch of three in which the task of index 1 always meets a 500
  and the others a well-formed answer.
\<close>

definition demo_nets :: "nat \<Rightarrow> network" where
  "demo_nets p =
     (\<lambda>i q. if p = 1 then Response (error_response 500 ''Internal Server Error'')
             else Response (json_response (completion ''cat'')))"


section \<open>Evaluation rules\<close>

text \<open>
  The definitions a run of \<open>classify_image\<close> or of a batch on concrete inputs is
  evaluated with.
\<close>

lemmas run_simps = classify_image_def build_request_def init_service_def init_state_def
  attempt_once_def except_Exception_def backoff_def raise_last_def is_client_error_text_def
  str_int_def extract_classification_def strip_def isspace_def upto_rec1 Let_def

lemmas demo_simps = demo_settings_def demo_service_def error_response_def json_response_def
  completion_def

lemmas batch_simps = classify_batch_def start_batch_def run_schedule_def step_task_def
  make_tasks_def gather_def enumerate_eq_zip upt_rec

section \<open>The response of status 200\<close>

lemma key_present_iff: "k \<in> fst ` set kvs \<longleftrightarrow> map_of kvs k \<noteq> None"
  by (simp add: map_of_eq_None_iff)

lemma extract_first_candidate:
  assumes "decoded r = Inr j" "first_candidate_text j = Some s"
  shows "extract_classification r =
           (if strip s = [] then Inl (Exception ''Empty classification result'')
            else Inr (strip s))"
proof -
  from assms(2) obtain kvs choice others msg where
    j: "j = JObj kvs" and c: "map_of kvs ''choices'' = Some (JArr (JObj choice # others))"
    and m: "map_of choice ''message'' = Some (JObj msg)"
    and t: "map_of msg ''content'' = Some (JStr s)"
    by (cases j) (auto split: option.splits json.splits list.splits)
  from c have "''choices'' \<in> fst ` set kvs"
    by (simp add: key_present_iff)
  with assms(1) j c m t show ?thesis
    by (simp add: extract_classification_def)
qed

lemma extract_no_choices:
  assumes "decoded r = Inr (JObj kvs)"
    and "case map_of kvs ''choices'' of None \<Rightarrow> True | Some c \<Rightarrow> \<not> truthy c"
  shows "extract_classification r = Inl (Exception ''Invalid response format from API'')"
proof (cases "map_of kvs ''choices''")
  case None
  then have "''choices'' \<notin> fst ` set kvs" by (simp add: key_present_iff)
  with assms(1) show ?thesis by (simp add: extract_classification_def)
next
  case (Some c)
  then have "''choices'' \<in> fst ` set kvs" by (simp add: key_present_iff)
  with assms Some show ?thesis by (simp add: extract_classification_def)
qed

lemma extract_lacks_result:
  assumes "decoded r = Inr j" "lacks_result j"
  shows "extract_classification r = Inl (Exception ''Invalid response format from API'')
       \<or> extract_classification r = Inl (Exception ''Empty classification result'')"
proof (cases "case j of JObj kvs \<Rightarrow> (case map_of kvs ''choices'' of None \<Rightarrow> True | Some c \<Rightarrow> \<not> truthy c)
       | _ \<Rightarrow> False")
  case True
  then obtain kvs where "j = JObj kvs"
    "case map_of kvs ''choices'' of None \<Rightarrow> True | Some c \<Rightarrow> \<not> truthy c"
    by (cases j) auto
  with assms(1) extract_no_choices show ?thesis by blast
next
  case False
  with assms(2) obtain s where "first_candidate_text j = Some s" "strip s = []"
    by (auto simp: lacks_result_def split: option.splits)
  with assms(1) extract_first_candidate show ?thesis by simp
qed

lemma bind_eq_Inr: "bind m f = Inr y \<longleftrightarrow> (\<exists>x. m = Inr x \<and> f x = Inr y)"
  by (cases m) auto

lemma getitem_eq_Inr: "getitem j k = Inr v \<longleftrightarrow> (\<exists>kvs. j = JObj kvs \<and> map_of kvs k = Some v)"
  by (cases j) (auto simp: not_subscriptable_def split: option.splits)

lemma getitem0_eq_Inr:
  "getitem0 j = Inr v \<longleftrightarrow>
     (\<exists>xs. j = JArr (v # xs)) \<or> (\<exists>c s. j = JStr (c # s) \<and> v = JStr [c])"
  by (cases j) (auto simp: not_subscriptable_def split: list.splits)

lemma py_strip_eq_Inr: "py_strip j = Inr t \<longleftrightarrow> (\<exists>s. j = JStr s \<and> t = strip s)"
  by (cases j) auto

lemma extract_returns_only_if:
  assumes "extract_classification r = Inr t"
  shows "\<exists>j s. decoded r = Inr j \<and> first_candidate_text j = Some s \<and> strip s = t \<and> t \<noteq> []"
proof -
  from assms obtain result present choices choice msg cont where
    d: "decoded r = Inr result"
    and "py_in ''choices'' result = Inr present" "present"
    and c: "getitem result ''choices'' = Inr choices" "truthy choices"
    and c0: "getitem0 choices = Inr choice"
    and m: "getitem choice ''message'' = Inr msg"
    and ct: "getitem msg ''content'' = Inr cont"
    and st: "py_strip cont = Inr t" "t \<noteq> []"
    by (auto simp: extract_classification_def bind_eq_Inr split: if_splits)
  from c obtain kvs where k: "result = JObj kvs" "map_of kvs ''choices'' = Some choices"
    by (auto simp: getitem_eq_Inr)
  from m obtain ckvs where ck: "choice = JObj ckvs" "map_of ckvs ''message'' = Some msg"
    by (auto simp: getitem_eq_Inr)
  from ct obtain mkvs where mk: "msg = JObj mkvs" "map_of mkvs ''content'' = Some cont"
    by (auto simp: getitem_eq_Inr)
  from st obtain s where s: "cont = JStr s" "t = strip s"
    by (auto simp: py_strip_eq_Inr)
  from c0 ck obtain xs where xs: "choices = JArr (JObj ckvs # xs)"
    by (auto simp: getitem0_eq_Inr)
  have "first_candidate_text result = Some s"
    using k ck mk s xs by simp
  with d s st show ?thesis by blast
qed

lemma extract_returns_iff:
  "extract_classification r = Inr t \<longleftrightarrow>
     (\<exists>j s. decoded r = Inr j \<and> first_candidate_text j = Some s \<and> strip s = t \<and> t \<noteq> [])"
  using extract_returns_only_if [of r t] extract_first_candidate [of r]
  by (auto split: if_splits)

section \<open>One attempt and the retry loop\<close>

lemma posted_backoff [simp]: "posted (backoff rc a st) = posted st"
  by (simp add: backoff_def)

lemma last_exception_backoff [simp]: "last_exception (backoff rc a st) = last_exception st"
  by (simp add: backoff_def)

lemma except_Exception_cases:
  "except_Exception rc a e st =
     (if is_client_error_text (str_exn e) then (Broke, st\<lparr>last_exception := Some e\<rparr>)
      else (Next_attempt, backoff rc a (st\<lparr>last_exception := Some e\<rparr>)))"
  by (simp add: except_Exception_def Let_def)

lemma raised_in_200_step:
  assumes "net (nat attempt) req = Response r" "status_code r = 200"
    "extract_classification r = Inl e"
  shows "retry_loop svc net req retry_count (attempt # rest) st =
           (let st' = st\<lparr>posted := posted st @ [req], last_exception := Some e\<rparr>
            in if is_client_error_text (str_exn e) then (Inl e, st')
               else retry_loop svc net req retry_count rest (backoff retry_count attempt st'))"
  using assms
  by (simp add: attempt_once_def except_Exception_cases raise_last_def Let_def)

lemma attempt_once_posted:
  "posted (snd (attempt_once svc net req rc a st)) = posted st @ [req]"
  by (simp add: attempt_once_def except_Exception_cases Let_def
      split: http_outcome.splits sum.splits)

lemma attempt_once_failure:
  assumes "failure_of svc (net (nat a) req) = Some e"
  shows "\<exists>fl st'. attempt_once svc net req rc a st = (fl, st')
           \<and> (fl = Broke \<or> fl = Next_attempt)
           \<and> (fl = Broke \<longrightarrow> is_client_error_text (str_exn e))
           \<and> last_exception st' = Some e \<and> posted st' = posted st @ [req]"
  using assms
  by (auto simp: attempt_once_def failure_of_def except_Exception_cases Let_def
      split: http_outcome.splits sum.splits if_splits)

lemma attempt_once_records:
  assumes "attempt_once svc net req rc a st = (fl, st1)" "\<forall>c. fl \<noteq> Returned c"
  shows "last_exception st1 \<noteq> None"
  using assms
  by (auto simp: attempt_once_def except_Exception_cases Let_def
      split: http_outcome.splits sum.splits if_splits)

lemma retry_loop_raise_last:
  "retry_loop svc net req rc atts st = (Inl e, st') \<Longrightarrow> e = raise_last st'"
proof (induction atts arbitrary: st)
  case Nil
  then show ?case by auto
next
  case (Cons a atts)
  then show ?case
    by (auto split: prod.splits flow.splits)
qed

lemma retry_loop_posted:
  "\<exists>k\<le>length atts. (atts \<noteq> [] \<longrightarrow> 0 < k)
      \<and> posted (snd (retry_loop svc net req rc atts st)) = posted st @ replicate k req"
proof (induction atts arbitrary: st)
  case Nil
  then show ?case by simp
next
  case (Cons a atts)
  obtain fl st1 where a1: "attempt_once svc net req rc a st = (fl, st1)"
    by (cases "attempt_once svc net req rc a st")
  have p1: "posted st1 = posted st @ [req]"
    using attempt_once_posted [of svc net req rc a st] a1 by simp
  show ?case
  proof (cases fl)
    case (Returned c)
    with a1 p1 show ?thesis by (intro exI [of _ 1]) simp
  next
    case Broke
    with a1 p1 show ?thesis by (intro exI [of _ 1]) simp
  next
    case Next_attempt
    from Cons.IH [of st1] obtain k where
      k: "k \<le> length atts"
        "posted (snd (retry_loop svc net req rc atts st1)) = posted st1 @ replicate k req"
      by blast
    with a1 p1 Next_attempt show ?thesis
      by (intro exI [of _ "Suc k"]) (simp add: replicate_app_Cons_same)
  qed
qed

lemma retry_loop_recorded:
  "retry_loop svc net req rc atts st = (Inl e, st') \<Longrightarrow>
     (posted st \<noteq> [] \<longrightarrow> last_exception st \<noteq> None) \<Longrightarrow>
     (posted st' \<noteq> [] \<longrightarrow> last_exception st' \<noteq> None)"
proof (induction atts arbitrary: st)
  case Nil
  then show ?case by auto
next
  case (Cons a atts)
  obtain fl st1 where a1: "attempt_once svc net req rc a st = (fl, st1)"
    by (cases "attempt_once svc net req rc a st")
  show ?case
  proof (cases fl)
    case (Returned c)
    with a1 Cons.prems(1) show ?thesis by simp
  next
    case Broke
    with a1 Cons.prems(1) attempt_once_records [OF a1] show ?thesis by auto
  next
    case Next_attempt
    with a1 attempt_once_records [OF a1] have "posted st1 \<noteq> [] \<longrightarrow> last_exception st1 \<noteq> None"
      by simp
    moreover from a1 Next_attempt Cons.prems(1)
    have "retry_loop svc net req rc atts st1 = (Inl e, st')" by simp
    ultimately show ?thesis by (rule Cons.IH [rotated])
  qed
qed

lemma retry_loop_no_post:
  assumes "posted (snd (retry_loop svc net req rc atts init_state)) = []"
  shows "atts = [] \<and> snd (retry_loop svc net req rc atts init_state) = init_state"
proof -
  from retry_loop_posted [of atts svc net req rc init_state] assms
  have "atts = []" by (auto simp: init_state_def)
  then show ?thesis by simp
qed

lemma loop_all_fail:
  assumes fails: "\<forall>i<nat rc. failure_of svc (net i req) = Some (errs i)"
  shows "0 \<le> a \<Longrightarrow> a < rc \<Longrightarrow> length (posted st) = nat a \<Longrightarrow>
     \<exists>n st'. nat a \<le> n \<and> n < nat rc
        \<and> retry_loop svc net req rc [a..rc - 1] st = (Inl (errs n), st')
        \<and> length (posted st') = n + 1 \<and> last_exception st' = Some (errs n)
        \<and> ((\<forall>i<nat rc. \<not> is_client_error_text (str_exn (errs i))) \<longrightarrow> n + 1 = nat rc)"
proof (induction "nat (rc - a)" arbitrary: a st)
  case 0
  then show ?case by simp
next
  case (Suc m)
  have a_lt: "nat a < nat rc" using Suc.prems by simp
  have unfold: "[a..rc - 1] = a # [a + 1..rc - 1]"
    using Suc.prems by (simp add: upto_rec1)
  from fails a_lt have fa: "failure_of svc (net (nat a) req) = Some (errs (nat a))"
    by blast
  from fa attempt_once_failure [where svc=svc and net=net and a=a and req=req
      and e="errs (nat a)" and rc=rc and st=st] obtain fl st1 where
    step: "attempt_once svc net req rc a st = (fl, st1)"
    and fl: "fl = Broke \<or> fl = Next_attempt"
    and brk: "fl = Broke \<longrightarrow> is_client_error_text (str_exn (errs (nat a)))"
    and le: "last_exception st1 = Some (errs (nat a))"
    and po: "posted st1 = posted st @ [req]"
    by blast
  have len1: "length (posted st1) = nat a + 1"
    using po Suc.prems by simp
  show ?case
  proof (cases "fl = Broke")
    case True
    have "retry_loop svc net req rc [a..rc - 1] st = (Inl (errs (nat a)), st1)"
      using unfold step True le by (simp add: raise_last_def)
    moreover have "\<not> (\<forall>i<nat rc. \<not> is_client_error_text (str_exn (errs i)))"
      using brk True a_lt by blast
    ultimately show ?thesis
      using a_lt len1 le by blast
  next
    case False
    with fl have nx: "fl = Next_attempt" by simp
    have cont: "retry_loop svc net req rc [a..rc - 1] st
                  = retry_loop svc net req rc [a + 1..rc - 1] st1"
      using unfold step nx by simp
    show ?thesis
    proof (cases "a + 1 < rc")
      case True
      have m: "m = nat (rc - (a + 1))" using Suc.hyps(2) by simp
      have len1': "length (posted st1) = nat (a + 1)"
        using len1 Suc.prems by (simp add: nat_add_distrib)
      from Suc.hyps(1) [where a="a + 1" and st=st1] m True len1' Suc.prems obtain n st' where
        n: "nat (a + 1) \<le> n" "n < nat rc"
        "retry_loop svc net req rc [a + 1..rc - 1] st1 = (Inl (errs n), st')"
        "length (posted st') = n + 1" "last_exception st' = Some (errs n)"
        "(\<forall>i<nat rc. \<not> is_client_error_text (str_exn (errs i))) \<longrightarrow> n + 1 = nat rc"
        by auto
      have "nat a \<le> n" using n(1) Suc.prems by simp
      with n cont show ?thesis by auto
    next
      case False
      then have emp: "[a + 1..rc - 1] = []" by simp
      have last: "nat a + 1 = nat rc" using False Suc.prems by simp
      have "retry_loop svc net req rc [a..rc - 1] st = (Inl (errs (nat a)), st1)"
        using cont emp le by (simp add: raise_last_def)
      then show ?thesis
        using a_lt len1 le last by blast
    qed
  qed
qed

text \<open>
  A call never makes more than \<open>retry_count\<close> attempts.
\<close>

lemma attempts_at_most_retry_count:
  "length (posted (snd (classify_image svc cfg net image_data mt temp retry_count))) \<le> nat retry_count"
proof (cases "api_key svc = []")
  case True
  then show ?thesis by (simp add: classify_image_def init_state_def)
next
  case False
  from retry_loop_posted [of "[0..retry_count - 1]" svc net
      "build_request svc cfg image_data mt temp" retry_count init_state]
  obtain k where "k \<le> length [0..retry_count - 1]"
    "[0..retry_count - 1] \<noteq> [] \<longrightarrow> 0 < k"
    "posted (snd (retry_loop svc net (build_request svc cfg image_data mt temp) retry_count
        [0..retry_count - 1] init_state)) = posted init_state @ replicate k (build_request svc cfg image_data mt temp)"
    by blast
  with False show ?thesis
    by (simp add: classify_image_def init_state_def)
qed

lemma attempt_once_same_outcome:
  assumes "\<forall>i q q'. net i q = net i q'" "same_outcome st st'"
  shows "fst (attempt_once svc net q rc a st) = fst (attempt_once svc net q' rc a st')
       \<and> same_outcome (snd (attempt_once svc net q rc a st)) (snd (attempt_once svc net q' rc a st'))"
proof -
  from assms(1) have eq: "net (nat a) q' = net (nat a) q" by blast
  show ?thesis
    using assms(2) unfolding attempt_once_def eq
    by (auto simp: same_outcome_def except_Exception_cases backoff_def Let_def
        split: http_outcome.splits sum.splits)
qed

lemma retry_loop_same_outcome:
  assumes "\<forall>i q q'. net i q = net i q'"
  shows "same_outcome st st' \<Longrightarrow>
    fst (retry_loop svc net q rc atts st) = fst (retry_loop svc net q' rc atts st')
    \<and> same_outcome (snd (retry_loop svc net q rc atts st)) (snd (retry_loop svc net q' rc atts st'))"
proof (induction atts arbitrary: st st')
  case Nil
  then show ?case by (simp add: raise_last_def same_outcome_def)
next
  case (Cons a atts)
  obtain fl st1 where a1: "attempt_once svc net q rc a st = (fl, st1)"
    by (cases "attempt_once svc net q rc a st")
  obtain fl' st1' where a2: "attempt_once svc net q' rc a st' = (fl', st1')"
    by (cases "attempt_once svc net q' rc a st'")
  from attempt_once_same_outcome [OF assms Cons.prems, of svc q rc a q'] a1 a2
  have fl: "fl' = fl" and so: "same_outcome st1 st1'" by simp_all
  show ?case
  proof (cases fl)
    case (Returned c)
    with a1 a2 fl so show ?thesis by simp
  next
    case Broke
    with a1 a2 fl so show ?thesis by (simp add: raise_last_def same_outcome_def)
  next
    case Next_attempt
    with a1 a2 fl Cons.IH [OF so] show ?thesis by simp
  qed
qed

section \<open>Properties of classify_image\<close>

text \<open>
  Claim C9. When no API key is configured, \<open>classify_image\<close> fails at once with the
  error "OpenRouter API key not configured" (the configuration error), whatever the
  image, the network and the retry count are: nothing is encoded, no request is posted
  and no backoff wait happens.
\<close>

theorem missing_api_key_fails_immediately:
  assumes "api_key svc = []"
  shows "classify_image svc cfg net image_data mt temp retry_count
           = (Inl (Exception ''OpenRouter API key not configured''), init_state)
         \<and> posted init_state = [] \<and> slept init_state = []"
  using assms by (simp add: classify_image_def init_state_def)

text \<open>
  Without a key, a call with three attempts allowed on a network that would time out
  posts nothing.
\<close>

theorem missing_api_key_fails_immediately_witness:
  "classify_image \<lparr>api_url = ''u'', api_key = [], timeout = PyFloat ''30.0''\<rparr>
       \<lparr>OPENROUTER_API_KEY = [], OPENROUTER_URL = ''u'', DEFAULT_MODEL = ''m'',
        APP_NAME = ''a'', REQUEST_TIMEOUT = PyFloat ''30.0''\<rparr>
       (\<lambda>i r. TimeoutException) [1, 2, 3] 50 (PyFloat ''0.1'') 3
     = (Inl (Exception ''OpenRouter API key not configured''),
        \<lparr>last_exception = None, posted = [], slept = []\<rparr>)"
  using missing_api_key_fails_immediately
    [of "\<lparr>api_url = ''u'', api_key = [], timeout = PyFloat ''30.0''\<rparr>"
        "\<lparr>OPENROUTER_API_KEY = [], OPENROUTER_URL = ''u'', DEFAULT_MODEL = ''m'',
          APP_NAME = ''a'', REQUEST_TIMEOUT = PyFloat ''30.0''\<rparr>"
        "\<lambda>i r. TimeoutException" "[1, 2, 3]" 50 "PyFloat ''0.1''" 3]
  by (simp add: init_state_def)

text \<open>
  A 401 ends the call after one attempt and without a wait: the text of its error
  contains 401.
\<close>

lemma unauthorized_401_single_attempt:
  "(case classify_image demo_service demo_settings
           (\<lambda>i q. Response (error_response 401 ''Unauthorized'')) [1, 2, 3] 50 (PyFloat ''0.1'') 3
    of (res, st) \<Rightarrow> (res, length (posted st), slept st))
   = (Inl (Exception ''API error 401: Unauthorized''), 1, [])"
  by (simp add: run_simps demo_simps)

text \<open>
  Claim C1 states that a response with a status from 400 to 498 ends the call at once,
  after exactly one attempt. The comment of line 141 says the same ("If it's a client
  error (4xx), don't retry"), but the exception raised at line 143 is caught by the
  handler of line 172, which breaks out of the loop only when the text of the error
  contains 400, 401 or 403. A 404 with the body "Not Found" is therefore retried: three
  attempts, waits of 1 and 2 seconds, and then the error of the last attempt.
\<close>

theorem not_found_404_is_retried:
  "(case classify_image demo_service demo_settings
           (\<lambda>i q. Response (error_response 404 ''Not Found'')) [1, 2, 3] 50 (PyFloat ''0.1'') 3
    of (res, st) \<Rightarrow> (res, length (posted st), slept st))
   = (Inl (Exception ''API error 404: Not Found''), 3, [1, 2])"
  by (simp add: run_simps demo_simps)

text \<open>
  Claim C2. For a response of status 200, at any attempt and in any state of the loop:
  a body that lacks its result (no \<open>choices\<close>, empty \<open>choices\<close>, or a text that is empty
  once trimmed) raises one of the two generic exceptions of lines 154 and 159; and
  whatever exception \<open>e\<close> the handling of the body raises, it is stored in
  \<open>last_exception\<close>, and then either its text contains 400, 401 or 403 and the loop
  ends at once with \<open>e\<close>, without a wait or a further attempt, or the loop waits as it
  does after a transient failure and goes on with the remaining attempts.
\<close>

theorem malformed_200_recorded_and_retried:
  assumes post: "net (nat attempt) req = Response r" and ok: "status_code r = 200"
  shows "(\<forall>j. decoded r = Inr j \<and> lacks_result j \<longrightarrow>
            extract_classification r = Inl (Exception ''Invalid response format from API'')
            \<or> extract_classification r = Inl (Exception ''Empty classification result''))
       \<and> (\<forall>e. extract_classification r = Inl e \<longrightarrow>
            retry_loop svc net req retry_count (attempt # rest) st =
              (let st' = st\<lparr>posted := posted st @ [req], last_exception := Some e\<rparr>
               in if is_client_error_text (str_exn e) then (Inl e, st')
                  else retry_loop svc net req retry_count rest (backoff retry_count attempt st')))"
proof -
  have "extract_classification r = Inl e \<Longrightarrow>
          retry_loop svc net req retry_count (attempt # rest) st =
            (let st' = st\<lparr>posted := posted st @ [req], last_exception := Some e\<rparr>
             in if is_client_error_text (str_exn e) then (Inl e, st')
                else retry_loop svc net req retry_count rest (backoff retry_count attempt st'))"
    for e
    using post ok
      raised_in_200_step [where net=net and attempt=attempt and req=req and r=r and e=e]
    by simp
  then show ?thesis
    using extract_lacks_result [of r] by blast
qed

text \<open>
  An empty \<open>choices\<close> at the first of three attempts is recorded and followed by a wait
  of 1 second and the second attempt; a decoding error whose text happens to contain
  400 ends the call after one attempt.
\<close>

theorem malformed_200_recorded_and_retried_witness:
  "retry_loop demo_service (\<lambda>i q. Response (json_response (JObj [(''choices'', JArr [])])))
       (build_request demo_service demo_settings [1, 2, 3] 50 (PyFloat ''0.1'')) 3 [0, 1, 2]
       init_state
   = retry_loop demo_service (\<lambda>i q. Response (json_response (JObj [(''choices'', JArr [])])))
       (build_request demo_service demo_settings [1, 2, 3] 50 (PyFloat ''0.1'')) 3 [1, 2]
       \<lparr>last_exception = Some (Exception ''Invalid response format from API''),
        posted = [build_request demo_service demo_settings [1, 2, 3] 50 (PyFloat ''0.1'')],
        slept = [1]\<rparr>
   \<and> retry_loop demo_service
       (\<lambda>i q. Response \<lparr>status_code = 200, resp_text = [],
                 decoded = Inl (LibraryError ''Expecting value: line 9 column 1 (char 400)'')\<rparr>)
       (build_request demo_service demo_settings [1, 2, 3] 50 (PyFloat ''0.1'')) 3 [0, 1, 2]
       init_state
   = (Inl (LibraryError ''Expecting value: line 9 column 1 (char 400)''),
      \<lparr>last_exception = Some (LibraryError ''Expecting value: line 9 column 1 (char 400)''),
       posted = [build_request demo_service demo_settings [1, 2, 3] 50 (PyFloat ''0.1'')],
       slept = []\<rparr>)"
proof -
  let ?req = "build_request demo_service demo_settings [1, 2, 3] 50 (PyFloat ''0.1'')"
  let ?r1 = "json_response (JObj [(''choices'', JArr [])])"
  let ?e2 = "LibraryError ''Expecting value: line 9 column 1 (char 400)''"
  let ?r2 = "\<lparr>status_code = 200, resp_text = [], decoded = Inl ?e2\<rparr>"
  have e1: "extract_classification ?r1 = Inl (Exception ''Invalid response format from API'')"
    by (simp add: extract_classification_def json_response_def)
  have e2: "extract_classification ?r2 = Inl ?e2"
    by (simp add: extract_classification_def)
  have n1: "\<not> is_client_error_text (str_exn (Exception ''Invalid response format from API''))"
    by (simp add: is_client_error_text_def)
  have n2: "is_client_error_text (str_exn ?e2)"
    by (simp add: is_client_error_text_def)
  have "(\<lambda>(i::nat) (q::request). Response ?r1) (nat 0) ?req = Response ?r1" by simp
  moreover have "status_code ?r1 = 200" by (simp add: json_response_def)
  ultimately have first:
    "retry_loop demo_service (\<lambda>i q. Response ?r1) ?req 3 (0 # [1, 2]) init_state
       = retry_loop demo_service (\<lambda>i q. Response ?r1) ?req 3 [1, 2]
           (backoff 3 0 (init_state\<lparr>posted := posted init_state @ [?req],
              last_exception := Some (Exception ''Invalid response format from API'')\<rparr>))"
    using malformed_200_recorded_and_retried
      [where net="\<lambda>i q. Response ?r1" and attempt=0 and req="?req" and r="?r1"
        and svc=demo_service and retry_count=3 and rest="[1, 2]" and st=init_state] e1 n1
    by (simp add: Let_def)
  have "(\<lambda>(i::nat) (q::request). Response ?r2) (nat 0) ?req = Response ?r2" by simp
  moreover have "status_code ?r2 = 200" by simp
  ultimately have second:
    "retry_loop demo_service (\<lambda>i q. Response ?r2) ?req 3 (0 # [1, 2]) init_state
       = (Inl ?e2, init_state\<lparr>posted := posted init_state @ [?req],
              last_exception := Some ?e2\<rparr>)"
    using malformed_200_recorded_and_retried
      [where net="\<lambda>i q. Response ?r2" and attempt=0 and req="?req" and r="?r2"
        and svc=demo_service and retry_count=3 and rest="[1, 2]" and st=init_state] e2 n2
    by (simp add: Let_def)
  from first second show ?thesis
    by (simp add: init_state_def backoff_def)
qed

text \<open>
  Claim C8. For a response of status 200 with a well-formed body, at any attempt and in
  any state of the loop: when the text of the first candidate is not empty once
  trimmed, the call returns that trimmed text, which is hence non-empty; when it is
  empty once trimmed, the attempt fails with "Empty classification result" and is
  retried.
\<close>

theorem well_formed_200_returns_trimmed_text:
  assumes post: "net (nat attempt) req = Response r" and ok: "status_code r = 200"
    and body: "decoded r = Inr j" and wf: "first_candidate_text j = Some s"
  shows "if strip s \<noteq> []
         then retry_loop svc net req retry_count (attempt # rest) st
                = (Inr (strip s), st\<lparr>posted := posted st @ [req]\<rparr>)
         else retry_loop svc net req retry_count (attempt # rest) st
                = retry_loop svc net req retry_count rest
                    (backoff retry_count attempt
                       (st\<lparr>posted := posted st @ [req],
                           last_exception := Some (Exception ''Empty classification result'')\<rparr>))"
proof (cases "strip s = []")
  case True
  with extract_first_candidate [OF body wf]
  have e: "extract_classification r = Inl (Exception ''Empty classification result'')" by simp
  have "\<not> is_client_error_text (str_exn (Exception ''Empty classification result''))"
    by (simp add: is_client_error_text_def)
  with post ok e True
    raised_in_200_step [where net=net and attempt=attempt and req=req and r=r
      and e="Exception ''Empty classification result''"]
  show ?thesis by (simp add: Let_def)
next
  case False
  with extract_first_candidate [OF body wf]
  have "extract_classification r = Inr (strip s)" by simp
  with post ok False show ?thesis by (simp add: attempt_once_def Let_def)
qed

text \<open>
  A first answer with the text "  tabby cat " makes the call return "tabby cat" after
  one request.
\<close>

theorem well_formed_200_returns_trimmed_text_witness:
  "classify_image demo_service demo_settings
      (\<lambda>i q. Response (json_response (completion ''  tabby cat '')))
      [1, 2, 3] 50 (PyFloat ''0.1'') 3
   = (Inr ''tabby cat'',
      \<lparr>last_exception = None,
       posted = [build_request demo_service demo_settings [1, 2, 3] 50 (PyFloat ''0.1'')],
       slept = []\<rparr>)"
proof -
  let ?net = "\<lambda>(i::nat) (q::request). Response (json_response (completion ''  tabby cat ''))"
  let ?req = "build_request demo_service demo_settings [1, 2, 3] 50 (PyFloat ''0.1'')"
  have post: "?net (nat 0) ?req = Response (json_response (completion ''  tabby cat ''))"
    by simp
  have ok: "status_code (json_response (completion ''  tabby cat '')) = 200"
    by (simp add: json_response_def)
  have body: "decoded (json_response (completion ''  tabby cat ''))
                = Inr (completion ''  tabby cat '')"
    by (simp add: json_response_def)
  have wf: "first_candidate_text (completion ''  tabby cat '') = Some ''  tabby cat ''"
    by (simp add: completion_def)
  have tr: "strip ''  tabby cat '' = ''tabby cat''"
    by (simp add: strip_def isspace_def)
  from well_formed_200_returns_trimmed_text
    [where net="?net" and attempt=0 and req="?req" and svc=demo_service and retry_count=3
      and rest="[1, 2]" and st=init_state, OF post ok body wf] tr
  have "retry_loop demo_service ?net ?req 3 [0, 1, 2] init_state
          = (Inr ''tabby cat'', init_state\<lparr>posted := posted init_state @ [?req]\<rparr>)"
    by simp
  moreover have "[0..(3::int) - 1] = [0, 1, 2]"
    by (simp add: upto_rec1)
  moreover have "api_key demo_service \<noteq> []"
    by (simp add: demo_simps init_service_def)
  ultimately show ?thesis
    by (simp add: classify_image_def init_state_def)
qed

text \<open>
  After two timeouts and then a 200 the call waits 1 and then 2 seconds.
\<close>

lemma two_timeouts_then_200_backoff:
  "(case classify_image demo_service demo_settings
           (\<lambda>i q. if i < 2 then TimeoutException
                   else Response (json_response (completion ''cat'')))
           [1, 2, 3] 50 (PyFloat ''0.1'') 3
    of (res, st) \<Rightarrow> (res, length (posted st), slept st))
   = (Inr ''cat'', 3, [1, 2])"
  by (simp add: run_simps demo_simps)

text \<open>
  Claim C3 states that the call sleeps \<open>2 ^ attempt\<close> seconds between consecutive
  attempts, so that two 503 responses followed by a 200 give waits of 1 and 2 seconds.
  The comment of line 179 announces that wait before every retry, and the handlers of
  lines 164 to 177 reach it; but the branch of line 147 for a status outside 400 to
  499 leaves the iteration with \<open>continue\<close>, which skips lines 179 to 183. With two 503
  responses and then a 200 the call succeeds at the third attempt without any wait.
\<close>

theorem two_503_then_200_no_backoff:
  "(case classify_image demo_service demo_settings
           (\<lambda>i q. if i < 2 then Response (error_response 503 ''Service Unavailable'')
                   else Response (json_response (completion ''cat'')))
           [1, 2, 3] 50 (PyFloat ''0.1'') 3
    of (res, st) \<Rightarrow> (res, length (posted st), slept st))
   = (Inr ''cat'', 3, [])"
  by (simp add: run_simps demo_simps)

text \<open>
  Claim C4. With an API key configured: when \<open>retry_count\<close> is positive and every
  attempt fails, attempt \<open>i\<close> with the failure \<open>errs i\<close>, the call raises the failure of
  the last attempt it made, and it has made all \<open>retry_count\<close> attempts unless the text
  of a failure made the handler of line 172 break out early. Whenever the call raises
  out of the loop, the error is the value of \<open>last_exception\<close> if one was recorded, which
  takes at least one attempt; the generic "Classification failed after all retries" is
  raised only when nothing was recorded, that is when no attempt was made because
  \<open>retry_count\<close> is not positive.
\<close>

theorem exhausted_retries_surface_last_failure:
  assumes key: "api_key svc \<noteq> []"
  shows "(0 < retry_count
          \<and> (\<forall>i<nat retry_count.
                failure_of svc (net i (build_request svc cfg image_data mt temp)) = Some (errs i))
          \<longrightarrow> (\<exists>n st'. n < nat retry_count
                 \<and> classify_image svc cfg net image_data mt temp retry_count = (Inl (errs n), st')
                 \<and> length (posted st') = n + 1
                 \<and> last_exception st' = Some (errs n)
                 \<and> ((\<forall>i<nat retry_count. \<not> is_client_error_text (str_exn (errs i)))
                      \<longrightarrow> n + 1 = nat retry_count)))
       \<and> (\<forall>e st'. classify_image svc cfg net image_data mt temp retry_count = (Inl e, st')
            \<longrightarrow> (case last_exception st' of
                   Some e' \<Rightarrow> e = e' \<and> posted st' \<noteq> []
                 | None \<Rightarrow> e = Exception ''Classification failed after all retries''
                            \<and> posted st' = [] \<and> retry_count \<le> 0))"
proof -
  let ?req = "build_request svc cfg image_data mt temp"
  have cl: "classify_image svc cfg net image_data mt temp retry_count
              = retry_loop svc net ?req retry_count [0..retry_count - 1] init_state"
    using key by (simp add: classify_image_def)
  have part1: "0 < retry_count
          \<and> (\<forall>i<nat retry_count. failure_of svc (net i ?req) = Some (errs i))
          \<longrightarrow> (\<exists>n st'. n < nat retry_count
                 \<and> classify_image svc cfg net image_data mt temp retry_count = (Inl (errs n), st')
                 \<and> length (posted st') = n + 1
                 \<and> last_exception st' = Some (errs n)
                 \<and> ((\<forall>i<nat retry_count. \<not> is_client_error_text (str_exn (errs i)))
                      \<longrightarrow> n + 1 = nat retry_count))"
  proof
    assume h: "0 < retry_count
          \<and> (\<forall>i<nat retry_count. failure_of svc (net i ?req) = Some (errs i))"
    have "length (posted init_state) = nat 0" by (simp add: init_state_def)
    with h loop_all_fail [where svc=svc and net=net and rc=retry_count and errs=errs
        and a=0 and st=init_state and req="?req"]
    have "\<exists>n st'. nat 0 \<le> n \<and> n < nat retry_count
        \<and> retry_loop svc net ?req retry_count [0..retry_count - 1] init_state = (Inl (errs n), st')
        \<and> length (posted st') = n + 1 \<and> last_exception st' = Some (errs n)
        \<and> ((\<forall>i<nat retry_count. \<not> is_client_error_text (str_exn (errs i)))
             \<longrightarrow> n + 1 = nat retry_count)"
      by simp
    then show "\<exists>n st'. n < nat retry_count
                 \<and> classify_image svc cfg net image_data mt temp retry_count = (Inl (errs n), st')
                 \<and> length (posted st') = n + 1
                 \<and> last_exception st' = Some (errs n)
                 \<and> ((\<forall>i<nat retry_count. \<not> is_client_error_text (str_exn (errs i)))
                      \<longrightarrow> n + 1 = nat retry_count)"
      unfolding cl by simp
  qed
  have part2: "\<forall>e st'. classify_image svc cfg net image_data mt temp retry_count = (Inl e, st')
            \<longrightarrow> (case last_exception st' of
                   Some e' \<Rightarrow> e = e' \<and> posted st' \<noteq> []
                 | None \<Rightarrow> e = Exception ''Classification failed after all retries''
                            \<and> posted st' = [] \<and> retry_count \<le> 0)"
  proof (intro allI impI)
    fix e st'
    assume "classify_image svc cfg net image_data mt temp retry_count = (Inl e, st')"
    with cl have r: "retry_loop svc net ?req retry_count [0..retry_count - 1] init_state
                      = (Inl e, st')"
      by simp
    from retry_loop_raise_last [OF r] have e: "e = raise_last st'" .
    have rec: "posted st' \<noteq> [] \<longrightarrow> last_exception st' \<noteq> None"
      using retry_loop_recorded [OF r] by (simp add: init_state_def)
    show "case last_exception st' of
            Some e' \<Rightarrow> e = e' \<and> posted st' \<noteq> []
          | None \<Rightarrow> e = Exception ''Classification failed after all retries''
                     \<and> posted st' = [] \<and> retry_count \<le> 0"
    proof (cases "last_exception st'")
      case None
      with rec have p: "posted st' = []" by blast
      with r retry_loop_no_post [of svc net ?req retry_count "[0..retry_count - 1]"]
      have "[0..retry_count - 1] = []" by simp
      then have "retry_count \<le> 0" by simp
      with None e p show ?thesis by (simp add: raise_last_def)
    next
      case (Some e')
      have "posted st' \<noteq> []"
      proof
        assume "posted st' = []"
        with r retry_loop_no_post [of svc net ?req retry_count "[0..retry_count - 1]"]
        have "st' = init_state" by simp
        with Some show False by (simp add: init_state_def)
      qed
      with Some e show ?thesis by (simp add: raise_last_def)
    qed
  qed
  from part1 part2 show ?thesis by blast
qed

text \<open>
  Two timeouts and then a connection error: the call raises the connection error, after
  three requests and waits of 1 and 2 seconds.
\<close>

theorem exhausted_retries_surface_last_failure_witness:
  "classify_image demo_service demo_settings
      (\<lambda>i q. if i < 2 then TimeoutException else RequestError ''connection reset'')
      [1, 2, 3] 50 (PyFloat ''0.1'') 3
   = (Inl (Exception ''Request error: connection reset''),
      \<lparr>last_exception = Some (Exception ''Request error: connection reset''),
       posted = replicate 3 (build_request demo_service demo_settings [1, 2, 3] 50 (PyFloat ''0.1'')),
       slept = [1, 2]\<rparr>)"
proof -
  let ?net = "\<lambda>(i::nat) (q::request).
                if i < 2 then TimeoutException else RequestError ''connection reset''"
  let ?errs = "\<lambda>i::nat. if i < 2 then Exception ''Request timeout after 30.0s''
                 else Exception ''Request error: connection reset''"
  have key: "api_key demo_service \<noteq> []"
    by (simp add: demo_simps init_service_def)
  have rc: "(0::int) < 3" by simp
  have fails: "\<forall>i<nat 3. failure_of demo_service
       (?net i (build_request demo_service demo_settings [1, 2, 3] 50 (PyFloat ''0.1'')))
       = Some (?errs i)"
    by (simp add: failure_of_def demo_simps init_service_def)
  have texts: "\<forall>i<nat 3. \<not> is_client_error_text (str_exn (?errs i))"
    by (simp add: is_client_error_text_def)
  from exhausted_retries_surface_last_failure
    [where svc=demo_service and retry_count=3 and net="?net" and cfg=demo_settings
      and image_data="[1, 2, 3]" and mt=50 and temp="PyFloat ''0.1''" and errs="?errs",
      OF key] rc fails
  have "\<exists>n st'. n < nat 3
          \<and> classify_image demo_service demo_settings ?net [1, 2, 3] 50 (PyFloat ''0.1'') 3
              = (Inl (?errs n), st')
          \<and> length (posted st') = n + 1
          \<and> last_exception st' = Some (?errs n)
          \<and> ((\<forall>i<nat 3. \<not> is_client_error_text (str_exn (?errs i))) \<longrightarrow> n + 1 = nat 3)"
    by blast
  with texts obtain st' where
    "classify_image demo_service demo_settings ?net [1, 2, 3] 50 (PyFloat ''0.1'') 3
       = (Inl (?errs 2), st')"
    by auto
  then have "fst (classify_image demo_service demo_settings ?net [1, 2, 3] 50 (PyFloat ''0.1'') 3)
       = Inl (Exception ''Request error: connection reset'')"
    by simp
  moreover have "snd (classify_image demo_service demo_settings ?net [1, 2, 3] 50 (PyFloat ''0.1'') 3)
       = \<lparr>last_exception = Some (Exception ''Request error: connection reset''),
       posted = replicate 3 (build_request demo_service demo_settings [1, 2, 3] 50 (PyFloat ''0.1'')),
       slept = [1, 2]\<rparr>"
    by (simp add: classify_image_def init_service_def init_state_def attempt_once_def
        backoff_def raise_last_def upto_rec1 Let_def demo_simps numeral_3_eq_3)
  ultimately show ?thesis
    by (simp add: prod_eq_iff)
qed

text \<open>
  Claim C10. With an API key configured and a positive \<open>retry_count\<close>, whatever the
  bytes of the image, the empty sequence included: the call posts at least one request,
  every request it posts is the one built from the image, and that request carries the
  base64 encoding of the bytes in its image part. When the network does not look at the
  request, the call on any image ends as the call on the empty image does: same
  result, same waits, same number of attempts.
\<close>

theorem image_bytes_not_validated:
  assumes key: "api_key svc \<noteq> []" and rc: "0 < retry_count"
  shows "posted (snd (classify_image svc cfg net image_data mt temp retry_count)) \<noteq> []
       \<and> (\<forall>q \<in> set (posted (snd (classify_image svc cfg net image_data mt temp retry_count))).
            q = build_request svc cfg image_data mt temp)
       \<and> Image_url_part (''data:image/jpeg;base64,'' @ b64encode image_data)
            \<in> set (concat (map content
                  (messages (body (build_request svc cfg image_data mt temp)))))
       \<and> ((\<forall>i q q'. net i q = net i q') \<longrightarrow>
            fst (classify_image svc cfg net image_data mt temp retry_count)
              = fst (classify_image svc cfg net [] mt temp retry_count)
            \<and> same_outcome (snd (classify_image svc cfg net image_data mt temp retry_count))
                 (snd (classify_image svc cfg net [] mt temp retry_count)))"
proof -
  let ?req = "build_request svc cfg image_data mt temp"
  from rc have ne: "[0..retry_count - 1] \<noteq> []" by simp
  from retry_loop_posted [of "[0..retry_count - 1]" svc net ?req retry_count init_state] ne
  obtain k where k: "0 < k"
    "posted (snd (retry_loop svc net ?req retry_count [0..retry_count - 1] init_state))
       = posted init_state @ replicate k ?req"
    by blast
  have p: "posted (snd (classify_image svc cfg net image_data mt temp retry_count))
             = replicate k ?req"
    using key k(2) by (simp add: classify_image_def init_state_def)
  have a: "posted (snd (classify_image svc cfg net image_data mt temp retry_count)) \<noteq> []"
    using p k(1) by simp
  have b: "\<forall>q \<in> set (posted (snd (classify_image svc cfg net image_data mt temp retry_count))).
             q = ?req"
    using p by simp
  have c: "Image_url_part (''data:image/jpeg;base64,'' @ b64encode image_data)
            \<in> set (concat (map content (messages (body ?req))))"
    by (simp add: build_request_def prepare_payload_def)
  have d: "(\<forall>i q q'. net i q = net i q') \<longrightarrow>
            fst (classify_image svc cfg net image_data mt temp retry_count)
              = fst (classify_image svc cfg net [] mt temp retry_count)
            \<and> same_outcome (snd (classify_image svc cfg net image_data mt temp retry_count))
                 (snd (classify_image svc cfg net [] mt temp retry_count))"
  proof
    assume indep: "\<forall>i q q'. net i q = net i q'"
    have "same_outcome init_state init_state" by (simp add: same_outcome_def)
    from retry_loop_same_outcome [OF indep this, of svc ?req retry_count "[0..retry_count - 1]"
        "build_request svc cfg [] mt temp"] key
    show "fst (classify_image svc cfg net image_data mt temp retry_count)
              = fst (classify_image svc cfg net [] mt temp retry_count)
            \<and> same_outcome (snd (classify_image svc cfg net image_data mt temp retry_count))
                 (snd (classify_image svc cfg net [] mt temp retry_count))"
      by (simp add: classify_image_def)
  qed
  from a b c d show ?thesis by blast
qed

text \<open>
  The empty image is posted with the URL "data:image/jpeg;base64," and classified as
  the network answers.
\<close>

theorem image_bytes_not_validated_witness:
  "posted (snd (classify_image demo_service demo_settings
        (\<lambda>i q. Response (json_response (completion ''cat''))) [] 50 (PyFloat ''0.1'') 3))
     = [build_request demo_service demo_settings [] 50 (PyFloat ''0.1'')]
   \<and> Image_url_part ''data:image/jpeg;base64,''
        \<in> set (concat (map content (messages (body
              (build_request demo_service demo_settings [] 50 (PyFloat ''0.1''))))))
   \<and> fst (classify_image demo_service demo_settings
        (\<lambda>i q. Response (json_response (completion ''cat''))) [] 50 (PyFloat ''0.1'') 3)
     = Inr ''cat''"
proof -
  have key: "api_key demo_service \<noteq> []" by (simp add: demo_simps init_service_def)
  have rc: "(0::int) < 3" by simp
  from image_bytes_not_validated [OF key rc, of demo_settings
      "\<lambda>i q. Response (json_response (completion ''cat''))" "[]" 50 "PyFloat ''0.1''"]
  have "Image_url_part (''data:image/jpeg;base64,'' @ b64encode [])
          \<in> set (concat (map content (messages (body
              (build_request demo_service demo_settings [] 50 (PyFloat ''0.1''))))))"
    by blast
  moreover have "posted (snd (classify_image demo_service demo_settings
        (\<lambda>i q. Response (json_response (completion ''cat''))) [] 50 (PyFloat ''0.1'') 3))
     = [build_request demo_service demo_settings [] 50 (PyFloat ''0.1'')]"
    by (simp add: run_simps demo_simps)
  moreover have "fst (classify_image demo_service demo_settings
        (\<lambda>i q. Response (json_response (completion ''cat''))) [] 50 (PyFloat ''0.1'') 3)
     = Inr ''cat''"
    by (simp add: run_simps demo_simps)
  ultimately show ?thesis by simp
qed

section \<open>The states of a batch\<close>

lemma count_update:
  "p < length xs \<Longrightarrow>
     length (filter P (xs[p := y])) + (if P (xs ! p) then 1 else 0)
       = length (filter P xs) + (if P y then 1 else 0)"
proof (induction xs arbitrary: p)
  case Nil
  then show ?case by simp
next
  case (Cons x xs)
  then show ?case by (cases p) auto
qed

lemma sum_update:
  "p < length xs \<Longrightarrow>
     sum_list (map f (xs[p := y])) + f (xs ! p) = sum_list (map f xs) + (f y :: nat)"
proof (induction xs arbitrary: p)
  case Nil
  then show ?case by simp
next
  case (Cons x xs)
  then show ?case by (cases p) (auto simp: add.assoc add.left_commute)
qed

lemma those_eq_Some: "those xs = Some ys \<longleftrightarrow> xs = map Some ys"
proof (induction xs arbitrary: ys)
  case Nil
  then show ?case by auto
next
  case (Cons x xs)
  then show ?case by (cases x) (auto split: option.splits)
qed

lemma those_eq_None: "those xs = None \<longleftrightarrow> None \<in> set xs"
proof (induction xs)
  case Nil
  then show ?case by simp
next
  case (Cons x xs)
  then show ?case by (cases x) (auto split: option.splits)
qed

lemma make_tasks_nth:
  "p < length images \<Longrightarrow>
     make_tasks images ! p = \<lparr>task_image = images ! p, task_index = p, phase = Waiting\<rparr>"
  by (simp add: make_tasks_def nth_enumerate_eq)

lemma length_make_tasks [simp]: "length (make_tasks images) = length images"
  by (simp add: make_tasks_def)

lemma in_flight_make_tasks: "in_flight \<lparr>tasks = make_tasks images, sem_value = k\<rparr> = 0"
  by (simp add: in_flight_def make_tasks_def filter_empty_conv split_beta)

lemma invariant_start:
  assumes "0 \<le> k"
  shows "batch_invariant svc cfg nets images k \<lparr>tasks = make_tasks images, sem_value = k\<rparr>"
  using assms
  by (simp add: batch_invariant_def in_flight_make_tasks list_all_iff make_tasks_nth)

lemma invariant_step:
  assumes inv: "batch_invariant svc cfg nets images k st"
  shows "batch_invariant svc cfg nets images k (step_task svc cfg nets st p)"
proof (cases "p < length (tasks st)")
  case False
  with inv show ?thesis by (simp add: step_task_def)
next
  case True
  from inv have len: "length (tasks st) = length images"
    and at: "\<And>q. q < length images \<Longrightarrow> task_image (tasks st ! q) = images ! q
                      \<and> task_index (tasks st ! q) = q
                      \<and> (case phase (tasks st ! q) of
                            Done r \<Rightarrow> r = classify_single svc cfg (nets q) (images ! q) q
                          | _ \<Rightarrow> True)"
    and nonneg: "0 \<le> sem_value st"
    and bal: "int (in_flight st) + sem_value st = k"
    by (auto simp: batch_invariant_def list_all_iff)
  let ?t = "tasks st ! p"
  show ?thesis
  proof (cases "phase ?t")
    case Waiting
    show ?thesis
    proof (cases "0 < sem_value st")
      case False
      with Waiting True inv show ?thesis by (simp add: step_task_def)
    next
      case pos: True
      let ?st' = "st\<lparr>tasks := (tasks st)[p := ?t\<lparr>phase := Running\<rparr>],
                      sem_value := sem_value st - 1\<rparr>"
      have st': "step_task svc cfg nets st p = ?st'"
        using True Waiting pos by (simp add: step_task_def Let_def)
      from count_update [OF True, of "\<lambda>t. phase t = Running" "?t\<lparr>phase := Running\<rparr>"] Waiting
      have "in_flight ?st' = in_flight st + 1"
        by (simp add: in_flight_def)
      with bal pos nonneg have b': "0 \<le> sem_value ?st'" "int (in_flight ?st') + sem_value ?st' = k"
        by simp_all
      have "\<And>q. q < length images \<Longrightarrow> task_image (tasks ?st' ! q) = images ! q
                      \<and> task_index (tasks ?st' ! q) = q
                      \<and> (case phase (tasks ?st' ! q) of
                            Done r \<Rightarrow> r = classify_single svc cfg (nets q) (images ! q) q
                          | _ \<Rightarrow> True)"
        using at len True by (simp add: nth_list_update)
      with b' len show ?thesis
        unfolding st' by (simp add: batch_invariant_def list_all_iff)
    qed
  next
    case Running
    let ?r = "classify_single svc cfg (nets (task_index ?t)) (task_image ?t) (task_index ?t)"
    let ?st' = "st\<lparr>tasks := (tasks st)[p := ?t\<lparr>phase := Done ?r\<rparr>],
                    sem_value := sem_value st + 1\<rparr>"
    have st': "step_task svc cfg nets st p = ?st'"
      using True Running by (simp add: step_task_def Let_def)
    from count_update [OF True, of "\<lambda>t. phase t = Running" "?t\<lparr>phase := Done ?r\<rparr>"] Running
    have "in_flight ?st' + 1 = in_flight st"
      by (simp add: in_flight_def)
    with bal nonneg have b': "0 \<le> sem_value ?st'" "int (in_flight ?st') + sem_value ?st' = k"
      by simp_all
    from at [of p] True len have r: "?r = classify_single svc cfg (nets p) (images ! p) p"
      by simp
    have "\<And>q. q < length images \<Longrightarrow> task_image (tasks ?st' ! q) = images ! q
                      \<and> task_index (tasks ?st' ! q) = q
                      \<and> (case phase (tasks ?st' ! q) of
                            Done r \<Rightarrow> r = classify_single svc cfg (nets q) (images ! q) q
                          | _ \<Rightarrow> True)"
      using at len True r by (simp add: nth_list_update)
    with b' len show ?thesis
      unfolding st' by (simp add: batch_invariant_def list_all_iff)
  next
    case (Done r)
    with True inv show ?thesis by (simp add: step_task_def)
  qed
qed

lemma invariant_run:
  "batch_invariant svc cfg nets images k st \<Longrightarrow>
     batch_invariant svc cfg nets images k (run_schedule svc cfg nets schedule st)"
  unfolding run_schedule_def
  by (induction schedule arbitrary: st) (simp_all add: invariant_step)

lemma expected_results_nth:
  "p < length images \<Longrightarrow>
     expected_results svc cfg nets images ! p = classify_single svc cfg (nets p) (images ! p) p"
  by (simp add: expected_results_def nth_enumerate_eq)

lemma length_expected_results [simp]:
  "length (expected_results svc cfg nets images) = length images"
  by (simp add: expected_results_def)

lemma classify_single_index:
  "getitem (classify_single svc cfg net image_data index) ''index'' = Inr (JInt (int index))"
  by (simp add: classify_single_def split: sum.splits)

lemma gather_Some_expected:
  assumes inv: "batch_invariant svc cfg nets images k st" and g: "gather st = Some rs"
  shows "rs = expected_results svc cfg nets images"
proof (rule nth_equalityI)
  from g have m: "map finished (tasks st) = map Some rs"
    by (simp add: gather_def those_eq_Some)
  then have "length (tasks st) = length rs"
    by (metis length_map)
  with inv show len: "length rs = length (expected_results svc cfg nets images)"
    by (simp add: batch_invariant_def)
  fix p assume "p < length rs"
  with len have p: "p < length images" by simp
  with inv have pt: "p < length (tasks st)" by (simp add: batch_invariant_def)
  from m pt have "finished (tasks st ! p) = Some (rs ! p)"
    by (metis length_map nth_map)
  then have "phase (tasks st ! p) = Done (rs ! p)"
    by (simp split: phase.splits)
  moreover from inv p have "case phase (tasks st ! p) of
        Done r \<Rightarrow> r = classify_single svc cfg (nets p) (images ! p) p | _ \<Rightarrow> True"
    by (simp add: batch_invariant_def list_all_iff)
  ultimately show "rs ! p = expected_results svc cfg nets images ! p"
    using p by (simp add: expected_results_nth)
qed

lemma gather_None_unfinished:
  assumes "gather st = None"
  shows "\<exists>p<length (tasks st). phase (tasks st ! p) = Waiting \<or> phase (tasks st ! p) = Running"
proof -
  from assms have "None \<in> set (map finished (tasks st))"
    by (simp add: gather_def those_eq_None)
  then obtain t where t: "t \<in> set (tasks st)" "finished t = None"
    by auto
  then obtain p where "p < length (tasks st)" "tasks st ! p = t"
    by (auto simp: in_set_conv_nth)
  with t(2) show ?thesis
    by (cases "phase t") auto
qed

lemma step_running_work:
  assumes "p < length (tasks st)" "phase (tasks st ! p) = Running"
  shows "work_left (step_task svc cfg nets st p) + 1 = work_left st"
  using assms
    sum_update [OF assms(1),
      of "\<lambda>t. case phase t of Waiting \<Rightarrow> 2 | Running \<Rightarrow> 1 | Done r \<Rightarrow> 0"
         "(tasks st ! p)\<lparr>phase := Done (classify_single svc cfg (nets (task_index (tasks st ! p)))
             (task_image (tasks st ! p)) (task_index (tasks st ! p)))\<rparr>"]
  by (simp add: step_task_def work_left_def Let_def)

lemma step_waiting_work:
  assumes "p < length (tasks st)" "phase (tasks st ! p) = Waiting" "0 < sem_value st"
  shows "work_left (step_task svc cfg nets st p) + 1 = work_left st"
  using assms
    sum_update [OF assms(1),
      of "\<lambda>t. case phase t of Waiting \<Rightarrow> 2 | Running \<Rightarrow> 1 | Done r \<Rightarrow> 0"
         "(tasks st ! p)\<lparr>phase := Running\<rparr>"]
  by (simp add: step_task_def work_left_def Let_def)

lemma step_changes_work:
  assumes "step_task svc cfg nets st p \<noteq> st"
  shows "work_left (step_task svc cfg nets st p) + 1 = work_left st"
proof -
  from assms have p: "p < length (tasks st)"
    by (rule contrapos_np) (simp add: step_task_def)
  show ?thesis
  proof (cases "phase (tasks st ! p)")
    case Waiting
    with assms p have "0 < sem_value st"
      by (auto simp: step_task_def Let_def split: if_splits)
    with p Waiting show ?thesis by (rule step_waiting_work)
  next
    case Running
    with p show ?thesis by (rule step_running_work)
  next
    case (Done r)
    with assms p show ?thesis by (simp add: step_task_def)
  qed
qed

lemma progress:
  assumes inv: "batch_invariant svc cfg nets images k st" and k: "1 \<le> k"
    and g: "gather st = None"
  shows "\<exists>p<length (tasks st). work_left (step_task svc cfg nets st p) + 1 = work_left st"
proof (cases "\<exists>q<length (tasks st). phase (tasks st ! q) = Running")
  case True
  then show ?thesis using step_running_work by blast
next
  case False
  then have "filter (\<lambda>t. phase t = Running) (tasks st) = []"
    by (auto simp: filter_empty_conv in_set_conv_nth)
  then have "in_flight st = 0" by (simp add: in_flight_def)
  with inv k have pos: "0 < sem_value st" by (simp add: batch_invariant_def)
  from gather_None_unfinished [OF g] False obtain p where
    "p < length (tasks st)" "phase (tasks st ! p) = Waiting"
    by blast
  with pos show ?thesis using step_waiting_work by blast
qed

lemma run_schedule_append:
  "run_schedule svc cfg nets (a @ b) st = run_schedule svc cfg nets b (run_schedule svc cfg nets a st)"
  by (simp add: run_schedule_def)

lemma run_schedule_Cons:
  "run_schedule svc cfg nets (p # b) st = run_schedule svc cfg nets b (step_task svc cfg nets st p)"
  by (simp add: run_schedule_def)

lemma completion_exists:
  assumes k: "1 \<le> k"
  shows "batch_invariant svc cfg nets images k st \<Longrightarrow>
     \<exists>more. gather (run_schedule svc cfg nets more st) = Some (expected_results svc cfg nets images)"
proof (induction "work_left st" arbitrary: st rule: less_induct)
  case less
  show ?case
  proof (cases "gather st")
    case (Some rs)
    with gather_Some_expected [OF less.prems] have "gather (run_schedule svc cfg nets [] st)
        = Some (expected_results svc cfg nets images)"
      by (simp add: run_schedule_def)
    then show ?thesis by blast
  next
    case None
    from progress [OF less.prems k None] obtain p where
      p: "work_left (step_task svc cfg nets st p) + 1 = work_left st"
      by blast
    then have "work_left (step_task svc cfg nets st p) < work_left st" by simp
    from less.hyps [OF this invariant_step [OF less.prems] ] obtain more where
      "gather (run_schedule svc cfg nets more (step_task svc cfg nets st p))
         = Some (expected_results svc cfg nets images)"
      by blast
    then have "gather (run_schedule svc cfg nets (p # more) st)
         = Some (expected_results svc cfg nets images)"
      by (simp add: run_schedule_Cons)
    then show ?thesis by blast
  qed
qed

lemma idle_step: "idle svc cfg nets st \<Longrightarrow> step_task svc cfg nets st p = st"
  by (cases "p < length (tasks st)") (auto simp: idle_def list_all_iff step_task_def)

lemma idle_returned:
  assumes inv: "batch_invariant svc cfg nets images k st" and k: "1 \<le> k"
    and idle: "idle svc cfg nets st"
  shows "gather st = Some (expected_results svc cfg nets images)"
proof (cases "gather st")
  case None
  from progress [OF inv k None] obtain p where
    "work_left (step_task svc cfg nets st p) + 1 = work_left st" by blast
  with idle_step [OF idle, of p] show ?thesis by simp
next
  case (Some rs)
  with gather_Some_expected [OF inv] show ?thesis by simp
qed

text \<open>
  With a semaphore of value 0 a batch of at least one image has no result under any
  schedule.
\<close>

lemma zero_semaphore_never_returns:
  assumes "images_data \<noteq> []"
  shows "classify_batch svc cfg nets images_data 0 schedule = Inr None"
proof -
  let ?init = "\<lparr>tasks = make_tasks images_data, sem_value = 0\<rparr>"
  have stuck: "step_task svc cfg nets ?init p = ?init" for p
    by (simp add: step_task_def make_tasks_nth Let_def)
  have "run_schedule svc cfg nets schedule ?init = ?init"
    unfolding run_schedule_def by (induction schedule) (simp_all add: stuck)
  moreover from assms have "gather ?init = None"
    by (cases images_data) (simp_all add: gather_def make_tasks_def enumerate_eq_zip upt_rec)
  ultimately show ?thesis
    by (simp add: classify_batch_def start_batch_def)
qed

section \<open>Properties of classify_batch\<close>

text \<open>
  Claim C5 as stated fails without a positive \<open>max_concurrent\<close>. With
  \<open>max_concurrent = 0\<close> no task of a batch of three is ever admitted: after any steps
  there is no result and no task can take a step, so the call never returns. With
  \<open>max_concurrent = - 1\<close> the creation of the semaphore raises \<open>ValueError\<close>.
\<close>

theorem no_results_without_permits:
  "classify_batch demo_service demo_settings demo_nets [ [1], [2], [3] ] 0 [0, 1, 2, 0, 1, 2]
     = Inr None
   \<and> idle demo_service demo_settings demo_nets
       \<lparr>tasks = make_tasks [ [1], [2], [3] ], sem_value = 0\<rparr>
   \<and> classify_batch demo_service demo_settings demo_nets [ [1], [2], [3] ] (- 1) [0, 1, 2, 0, 1, 2]
     = Inl (ValueError ''Semaphore initial value must be >= 0'')"
  by (simp add: batch_simps idle_def)

text \<open>
  Claim C5, for \<open>max_concurrent\<close> of at least 1. Whatever steps the event loop has
  taken, in whatever order, the batch can be run to its end, and it then returns the
  expected result set; whenever the call returns, under any schedule, it returns that
  result set. The result set has one entry per image, and the entry at position \<open>p\<close>
  carries the index \<open>p\<close> and is the dict made from the image at position \<open>p\<close>.
\<close>

theorem batch_results_by_position:
  assumes k: "1 \<le> max_concurrent"
  shows "(\<exists>more. classify_batch svc cfg nets images_data max_concurrent (schedule @ more)
                   = Inr (Some (expected_results svc cfg nets images_data)))
       \<and> (\<forall>rs. classify_batch svc cfg nets images_data max_concurrent schedule = Inr (Some rs)
              \<longrightarrow> rs = expected_results svc cfg nets images_data)
       \<and> length (expected_results svc cfg nets images_data) = length images_data
       \<and> (\<forall>p<length images_data.
             expected_results svc cfg nets images_data ! p
               = classify_single svc cfg (nets p) (images_data ! p) p
             \<and> getitem (expected_results svc cfg nets images_data ! p) ''index''
                 = Inr (JInt (int p)))"
proof -
  let ?init = "\<lparr>tasks = make_tasks images_data, sem_value = max_concurrent\<rparr>"
  let ?now = "run_schedule svc cfg nets schedule ?init"
  from k have start: "start_batch images_data max_concurrent = Inr ?init"
    by (simp add: start_batch_def)
  from k have "batch_invariant svc cfg nets images_data max_concurrent ?init"
    by (simp add: invariant_start)
  then have inv: "batch_invariant svc cfg nets images_data max_concurrent ?now"
    by (rule invariant_run)
  from completion_exists [OF k inv] obtain more where
    "gather (run_schedule svc cfg nets more ?now)
       = Some (expected_results svc cfg nets images_data)"
    by blast
  then have a: "\<exists>more. classify_batch svc cfg nets images_data max_concurrent (schedule @ more)
                   = Inr (Some (expected_results svc cfg nets images_data))"
    using start by (auto simp: classify_batch_def run_schedule_append)
  have b: "\<forall>rs. classify_batch svc cfg nets images_data max_concurrent schedule = Inr (Some rs)
              \<longrightarrow> rs = expected_results svc cfg nets images_data"
    using start gather_Some_expected [OF inv] by (simp add: classify_batch_def)
  have c: "\<forall>p<length images_data.
             expected_results svc cfg nets images_data ! p
               = classify_single svc cfg (nets p) (images_data ! p) p
             \<and> getitem (expected_results svc cfg nets images_data ! p) ''index''
                 = Inr (JInt (int p))"
    by (simp add: expected_results_nth classify_single_index)
  have d: "length (expected_results svc cfg nets images_data) = length images_data"
    by simp
  from a b c d show ?thesis by blast
qed

text \<open>
  With two calls allowed at a time and the third image finished first, the three
  results come back in the order of the images.
\<close>

theorem batch_results_by_position_witness:
  "classify_batch demo_service demo_settings demo_nets [ [1], [2], [3] ] 2 [2, 0, 2, 1, 0, 1]
     = Inr (Some (expected_results demo_service demo_settings demo_nets [ [1], [2], [3] ]))
   \<and> expected_results demo_service demo_settings demo_nets [ [1], [2], [3] ]
     = [JObj [(''index'', JInt 0), (''success'', JBool True), (''classification'', JStr ''cat'')],
        JObj [(''index'', JInt 1), (''success'', JBool False),
              (''error'', JStr ''API error 500: Internal Server Error'')],
        JObj [(''index'', JInt 2), (''success'', JBool True), (''classification'', JStr ''cat'')] ]"
proof -
  have ev: "classify_batch demo_service demo_settings demo_nets [ [1], [2], [3] ] 2
              [2, 0, 2, 1, 0, 1]
     = Inr (Some
       [JObj [(''index'', JInt 0), (''success'', JBool True), (''classification'', JStr ''cat'')],
        JObj [(''index'', JInt 1), (''success'', JBool False),
              (''error'', JStr ''API error 500: Internal Server Error'')],
        JObj [(''index'', JInt 2), (''success'', JBool True), (''classification'', JStr ''cat'')] ])"
    by (simp add: batch_simps classify_single_def run_simps demo_simps demo_nets_def)
  have k: "(1::int) \<le> 2" by simp
  from batch_results_by_position [OF k, of demo_service demo_settings demo_nets
      "[ [1], [2], [3] ]" "[2, 0, 2, 1, 0, 1]"] ev
  show ?thesis by simp
qed

text \<open>
  Claim C6 as stated fails without a positive \<open>max_concurrent\<close>: a batch of two whose
  second item would fail returns no result set with \<open>max_concurrent = 0\<close>, where no
  task is ever admitted, and raises \<open>ValueError\<close> with \<open>max_concurrent = - 1\<close>.
\<close>

theorem failing_item_batch_without_permits:
  "classify_batch demo_service demo_settings demo_nets [ [7], [8] ] 0 [1, 1, 0, 0]
     = Inr None
   \<and> idle demo_service demo_settings demo_nets
       \<lparr>tasks = make_tasks [ [7], [8] ], sem_value = 0\<rparr>
   \<and> classify_batch demo_service demo_settings demo_nets [ [7], [8] ] (- 1) [1, 1, 0, 0]
     = Inl (ValueError ''Semaphore initial value must be >= 0'')"
  by (simp add: batch_simps idle_def)

text \<open>
  Claim C6, for \<open>max_concurrent\<close> of at least 1. An item whose call to
  \<open>classify_image\<close> raises \<open>e\<close> gets the dict with its own index, \<open>success\<close> false and
  the text of \<open>e\<close>. The batch always returns the full result set, in which every entry
  is made from its own image alone: a state in which no task can take a step has
  returned it, every step that changes the state reduces the work left, and from every
  state the batch can be run to its end.
\<close>

theorem batch_isolates_item_failures:
  assumes k: "1 \<le> max_concurrent"
  shows "(\<forall>p<length images_data. \<forall>e.
            fst (classify_image svc cfg (nets p) (images_data ! p) 50 (PyFloat ''0.1'') 3) = Inl e
            \<longrightarrow> expected_results svc cfg nets images_data ! p
                  = JObj [(''index'', JInt (int p)), (''success'', JBool False),
                          (''error'', JStr (str_exn e))])
       \<and> (idle svc cfg nets
             (run_schedule svc cfg nets schedule
                \<lparr>tasks = make_tasks images_data, sem_value = max_concurrent\<rparr>)
            \<longrightarrow> classify_batch svc cfg nets images_data max_concurrent schedule
                  = Inr (Some (expected_results svc cfg nets images_data)))
       \<and> (\<forall>p. step_task svc cfg nets
                 (run_schedule svc cfg nets schedule
                    \<lparr>tasks = make_tasks images_data, sem_value = max_concurrent\<rparr>) p
               \<noteq> run_schedule svc cfg nets schedule
                    \<lparr>tasks = make_tasks images_data, sem_value = max_concurrent\<rparr>
            \<longrightarrow> work_left (step_task svc cfg nets
                   (run_schedule svc cfg nets schedule
                      \<lparr>tasks = make_tasks images_data, sem_value = max_concurrent\<rparr>) p)
                < work_left (run_schedule svc cfg nets schedule
                      \<lparr>tasks = make_tasks images_data, sem_value = max_concurrent\<rparr>))
       \<and> (\<exists>more. classify_batch svc cfg nets images_data max_concurrent (schedule @ more)
                   = Inr (Some (expected_results svc cfg nets images_data)))"
proof -
  let ?init = "\<lparr>tasks = make_tasks images_data, sem_value = max_concurrent\<rparr>"
  let ?now = "run_schedule svc cfg nets schedule ?init"
  from k have start: "start_batch images_data max_concurrent = Inr ?init"
    by (simp add: start_batch_def)
  from k have "batch_invariant svc cfg nets images_data max_concurrent ?init"
    by (simp add: invariant_start)
  then have inv: "batch_invariant svc cfg nets images_data max_concurrent ?now"
    by (rule invariant_run)
  have a: "\<forall>p<length images_data. \<forall>e.
            fst (classify_image svc cfg (nets p) (images_data ! p) 50 (PyFloat ''0.1'') 3) = Inl e
            \<longrightarrow> expected_results svc cfg nets images_data ! p
                  = JObj [(''index'', JInt (int p)), (''success'', JBool False),
                          (''error'', JStr (str_exn e))]"
    by (simp add: expected_results_nth classify_single_def)
  have b: "idle svc cfg nets ?now
            \<longrightarrow> classify_batch svc cfg nets images_data max_concurrent schedule
                  = Inr (Some (expected_results svc cfg nets images_data))"
    using start idle_returned [OF inv k] by (simp add: classify_batch_def)
  have c: "\<forall>p. step_task svc cfg nets ?now p \<noteq> ?now
            \<longrightarrow> work_left (step_task svc cfg nets ?now p) < work_left ?now"
    using step_changes_work [of svc cfg nets ?now] by (metis less_add_one)
  from completion_exists [OF k inv] obtain more where
    "gather (run_schedule svc cfg nets more ?now)
       = Some (expected_results svc cfg nets images_data)"
    by blast
  then have d: "\<exists>more. classify_batch svc cfg nets images_data max_concurrent (schedule @ more)
                   = Inr (Some (expected_results svc cfg nets images_data))"
    using start by (auto simp: classify_batch_def run_schedule_append)
  from a b c d show ?thesis by blast
qed

text \<open>
  One call at a time, the second image meeting a 500 at all three attempts: its entry
  is the failure with index 1, and the batch returns all three entries.
\<close>

theorem batch_isolates_item_failures_witness:
  "expected_results demo_service demo_settings demo_nets [ [1], [2], [3] ] ! 1
     = JObj [(''index'', JInt 1), (''success'', JBool False),
             (''error'', JStr ''API error 500: Internal Server Error'')]
   \<and> classify_batch demo_service demo_settings demo_nets [ [1], [2], [3] ] 1 [0, 0, 1, 1, 2, 2]
     = Inr (Some (expected_results demo_service demo_settings demo_nets [ [1], [2], [3] ]))"
proof -
  have k: "(1::int) \<le> 1" by simp
  have fails: "fst (classify_image demo_service demo_settings (demo_nets 1) ([ [1], [2], [3] ] ! 1)
                  50 (PyFloat ''0.1'') 3)
                 = Inl (Exception ''API error 500: Internal Server Error'')"
    by (simp add: run_simps demo_simps demo_nets_def)
  have idle: "idle demo_service demo_settings demo_nets
       (run_schedule demo_service demo_settings demo_nets [0, 0, 1, 1, 2, 2]
          \<lparr>tasks = make_tasks [ [1], [2], [3] ], sem_value = 1\<rparr>)"
    by (simp add: batch_simps idle_def)
  from batch_isolates_item_failures [OF k, of "[ [1], [2], [3] ]" demo_service demo_settings
      demo_nets "[0, 0, 1, 1, 2, 2]"] fails idle
  show ?thesis by simp
qed

text \<open>
  Claim C7. In every state of a batch that has started with a semaphore of
  \<open>max_concurrent\<close>, after any steps in any order, at most \<open>max_concurrent\<close> calls are in
  flight. Each call in flight holds exactly one unit of the semaphore, taken when the
  task entered \<open>async with semaphore\<close> and given back when it left, whether
  \<open>classify_image\<close> returned or raised: the calls in flight and the value of the
  semaphore always add up to \<open>max_concurrent\<close>.
\<close>

theorem in_flight_at_most_max_concurrent:
  assumes start: "start_batch images_data max_concurrent = Inr st0"
  shows "int (in_flight (run_schedule svc cfg nets schedule st0)) \<le> max_concurrent
       \<and> int (in_flight (run_schedule svc cfg nets schedule st0))
           + sem_value (run_schedule svc cfg nets schedule st0) = max_concurrent
       \<and> 0 \<le> sem_value (run_schedule svc cfg nets schedule st0)"
proof -
  from start have k: "0 \<le> max_concurrent"
    and st0: "st0 = \<lparr>tasks = make_tasks images_data, sem_value = max_concurrent\<rparr>"
    by (auto simp: start_batch_def split: if_splits)
  from k have "batch_invariant svc cfg nets images_data max_concurrent st0"
    unfolding st0 by (rule invariant_start)
  then have "batch_invariant svc cfg nets images_data max_concurrent
               (run_schedule svc cfg nets schedule st0)"
    by (rule invariant_run)
  then show ?thesis
    by (simp add: batch_invariant_def)
qed

text \<open>
  Three images and two calls at a time: once the first two tasks are admitted, two
  calls are in flight, the semaphore is at 0 and the third task waits.
\<close>

theorem in_flight_at_most_max_concurrent_witness:
  "start_batch [ [1], [2], [3] ] 2 = Inr \<lparr>tasks = make_tasks [ [1], [2], [3] ], sem_value = 2\<rparr>
   \<and> in_flight (run_schedule demo_service demo_settings demo_nets [0, 1, 2]
         \<lparr>tasks = make_tasks [ [1], [2], [3] ], sem_value = 2\<rparr>) = 2
   \<and> int (in_flight (run_schedule demo_service demo_settings demo_nets [0, 1, 2]
         \<lparr>tasks = make_tasks [ [1], [2], [3] ], sem_value = 2\<rparr>)) \<le> 2
   \<and> sem_value (run_schedule demo_service demo_settings demo_nets [0, 1, 2]
         \<lparr>tasks = make_tasks [ [1], [2], [3] ], sem_value = 2\<rparr>) = 0"
proof -
  have start: "start_batch [ [1], [2], [3] ] 2
                 = Inr \<lparr>tasks = make_tasks [ [1], [2], [3] ], sem_value = 2\<rparr>"
    by (simp add: start_batch_def)
  have two: "in_flight (run_schedule demo_service demo_settings demo_nets [0, 1, 2]
         \<lparr>tasks = make_tasks [ [1], [2], [3] ], sem_value = 2\<rparr>) = 2"
    by (simp add: batch_simps in_flight_def)
  from in_flight_at_most_max_concurrent [OF start, of demo_service demo_settings demo_nets
      "[0, 1, 2]"] start two
  show ?thesis by simp
qed

end
